theory Spec2Isabelle
  imports Main "HOL-Library.Word"
begin

unbundle bit_operations_syntax

section \<open>Data model of \<^verbatim>\<open>src/internal/jsb_process.cpp\<close>\<close>

text \<open>
  The pipe delivers C \<^verbatim>\<open>char\<close>s: a chunk read from the pipe and the line buffer
  \<^verbatim>\<open>Vector<char> rd_line\<close> are lists of 8-bit \<open>char\<close>. A Godot \<^verbatim>\<open>String\<close> is a
  sequence of \<^verbatim>\<open>char32_t\<close>; a Windows wide string is a sequence of 16-bit units.
\<close>

type_synonym char32 = "32 word"
type_synonym String = "char32 list"
type_synonym wchar = "16 word"

definition u :: "char \<Rightarrow> char32" where
  \<comment> \<open>a C character literal compared with, or widened to, a \<^verbatim>\<open>char32_t\<close>\<close>
  "u c = of_char c"

definition ascii :: "string \<Rightarrow> String" where
  \<comment> \<open>a C string literal converted to a \<^verbatim>\<open>String\<close>\<close>
  "ascii cs = map u cs"

datatype Severity = Error | Log | Verbose

text \<open>
  The logging sink is supplied by the host (\<^verbatim>\<open>JSB_LOG_IMPL\<close>). The model records every
  call of \<^verbatim>\<open>JSB_PROCESS_LOG(Severity, Format, ...)\<close>: severity, format string, arguments.
\<close>

datatype log_call = JSB_PROCESS_LOG Severity string "String list"

text \<open>
  The text conversions are library code (Win32 and the Godot \<^verbatim>\<open>String\<close> class), not
  part of this repository; they are parameters of the model.
  \<^item> \<open>mb_count\<close>: \<^verbatim>\<open>MultiByteToWideChar(CP_ACP, 0, p, n, nullptr, 0)\<close>, the number of wide
    characters needed, 0 on failure;
  \<^item> \<open>mb_convert\<close>: \<^verbatim>\<open>MultiByteToWideChar(CP_ACP, 0, p, n, buffer, num)\<close>, the wide
    characters written, \<open>None\<close> when the call returns 0;
  \<^item> \<open>String_wchar\<close>: \<^verbatim>\<open>String(buffer.ptr())\<close>, which reads up to the first NUL
    (\<^verbatim>\<open>String(buffer.ptr(), num)\<close> before Godot 4.5, which reads up to the first NUL
    within \<open>num\<close> characters: the same text);
  \<^item> \<open>String_utf8\<close>: \<^verbatim>\<open>String::utf8(p, n)\<close>;
  \<^item> \<open>append_utf8\<close>: \<^verbatim>\<open>line.append_utf8(p)\<close> (\<^verbatim>\<open>parse_utf8\<close> before Godot 4.5) on a
    NUL-terminated buffer, \<open>Some\<close> of the decoded text when it returns \<^verbatim>\<open>OK\<close>.
\<close>

record Decoders =
  mb_count :: "string \<Rightarrow> int"
  mb_convert :: "string \<Rightarrow> int \<Rightarrow> wchar list option"
  String_wchar :: "wchar list \<Rightarrow> String"
  String_utf8 :: "string \<Rightarrow> String"
  append_utf8 :: "string \<Rightarrow> String option"

text \<open>
  The decoders on 7-bit input, where every code page of Windows and UTF-8 agree with
  ASCII: each byte is one character of the same code, and a reader of a NUL-terminated
  string stops at the first NUL. Used where a statement is evaluated on ASCII text.
\<close>

definition cstr :: "string \<Rightarrow> string" where
  "cstr bs = takeWhile (\<lambda>b. b \<noteq> CHR 0x00) bs"

definition ascii_decoders :: Decoders where
  "ascii_decoders = \<lparr>
     mb_count = (\<lambda>bs. int (length bs)),
     mb_convert = (\<lambda>bs num. Some (map of_char bs)),
     String_wchar = (\<lambda>ws. map ucast (takeWhile (\<lambda>w. w \<noteq> 0) ws)),
     String_utf8 = (\<lambda>bs. ascii (cstr bs)),
     append_utf8 = (\<lambda>bs. Some (ascii (cstr bs))) \<rparr>"

text \<open>
  Operating-system objects. A Windows \<^verbatim>\<open>HANDLE\<close> is a number, \<^verbatim>\<open>nullptr\<close> is 0; a POSIX
  file descriptor and a process id are \<^verbatim>\<open>int\<close>s. Of \<^verbatim>\<open>STARTUPINFO\<close> and
  \<^verbatim>\<open>PROCESS_INFORMATION\<close> the model keeps the members the code reads or writes; the
  others stay as \<^verbatim>\<open>ZeroMemory\<close> left them.
\<close>

type_synonym HANDLE = nat

record STARTUPINFO =
  dwFlags :: "32 word"
  hStdOutput :: HANDLE
  hStdError :: HANDLE

record PROCESS_INFORMATION =
  hProcess :: HANDLE
  hThread :: HANDLE

text \<open>Of the Godot enumeration \<^verbatim>\<open>Error\<close>, the values this code returns.\<close>

datatype Error = OK | ERR_CANT_CREATE | ERR_CANT_FORK

text \<open>
  The calls the code makes to the operating system and to its \<^verbatim>\<open>Thread\<close> member, with
  their arguments and, where the code reads it, their result. A \<^verbatim>\<open>ProcessImpl\<close> carries
  the list of the calls made so far, in order; that list is how the model observes what
  was created, closed, killed and joined. The status queries of \<^verbatim>\<open>_is_running\<close>
  (\<^verbatim>\<open>GetExitCodeProcess\<close>, \<^verbatim>\<open>waitpid\<close> with \<^verbatim>\<open>WNOHANG\<close>) are not recorded.
\<close>

datatype os_call =
    CreatePipe "(HANDLE \<times> HANDLE) option"
  | SetHandleInformation HANDLE bool
  | CreateProcessW String STARTUPINFO "(HANDLE \<times> HANDLE) option"
  | CloseHandle HANDLE
  | TerminateProcess HANDLE nat
  | pipe_call "(int \<times> int) option"
  | fork_call int
  | setsid_call
  | close_call int
  | dup2_call int int
  | execvp_call String "String list"
  | raise_call int
  | kill_call int int int
  | waitpid_call int int
  | Thread_start
  | Thread_wait_to_finish

text \<open>
  The members common to the Windows and the POSIX \<^verbatim>\<open>ProcessImpl\<close>: \<^verbatim>\<open>proc_name\<close>,
  \<^verbatim>\<open>rd_line\<close>, \<^verbatim>\<open>is_closing\<close>; with them the logging sink and the calls made so far.
\<close>

record Impl =
  proc_name :: String
  rd_line :: string
  is_closing :: bool
  sink :: "log_call list"
  calls :: "os_call list"

section \<open>Line assembler and escape filter\<close>

definition append_char_to_line :: "char \<Rightarrow> 'a Impl_scheme \<Rightarrow> 'a Impl_scheme" where
  \<comment> \<open>\<^verbatim>\<open>_append_char_to_line\<close>\<close>
  "append_char_to_line c s = s\<lparr>rd_line := rd_line s @ [c]\<rparr>"

definition win_output :: "Decoders \<Rightarrow> string \<Rightarrow> String" where
  \<comment> \<open>the local \<^verbatim>\<open>output\<close> of the Windows \<^verbatim>\<open>_flush\<close>: the ANSI code page first, UTF-8 when
      the wide buffer stayed empty. The buffer has \<open>num + 1\<close> slots, of which the call
      writes \<open>num\<close>; the model keeps the written ones.\<close>
  "win_output D line =
     (let num = mb_count D line;
          buffer = (if num > 0
                    then (case mb_convert D line num of None \<Rightarrow> [] | Some ws \<Rightarrow> ws)
                    else [])
      in if buffer = [] then String_utf8 D line else String_wchar D buffer)"

definition win_flush :: "Decoders \<Rightarrow> 'a Impl_scheme \<Rightarrow> 'a Impl_scheme" where
  \<comment> \<open>\<^verbatim>\<open>_flush\<close> of the Windows implementation\<close>
  "win_flush D s =
     (if rd_line s = [] then s
      else let output = win_output D (rd_line s);
               s1 = (if output \<noteq> []
                     then s\<lparr>sink := sink s @ [JSB_PROCESS_LOG Log ''[%s] %s'' [proc_name s, output]]\<rparr>
                     else s)
           in s1\<lparr>rd_line := []\<rparr>)"

definition posix_flush :: "Decoders \<Rightarrow> 'a Impl_scheme \<Rightarrow> 'a Impl_scheme" where
  \<comment> \<open>\<^verbatim>\<open>_flush\<close> of the POSIX implementation\<close>
  "posix_flush D s =
     (if rd_line s = [] then s
      else let s1 = (case append_utf8 D (rd_line s) of
                       Some line \<Rightarrow>
                         s\<lparr>sink := sink s @ [JSB_PROCESS_LOG Log ''[%s] %s'' [proc_name s, line]]\<rparr>
                     | None \<Rightarrow> s)
           in s1\<lparr>rd_line := []\<rparr>)"

text \<open>
  The two inner \<^verbatim>\<open>while (i < read)\<close> loops of \<^verbatim>\<open>_thread_run\<close>. Each returns the index
  \<open>i\<close> at which it stops; the \<^verbatim>\<open>continue\<close> that follows lets the \<^verbatim>\<open>for\<close> loop add 1.
\<close>

function csi_scan :: "string \<Rightarrow> nat \<Rightarrow> nat" where
  "csi_scan buffer i =
     (if i < length buffer
      then (let c = (of_char (buffer ! i) :: nat)
            in if c \<ge> 0x40 \<and> c \<le> 0x7E then i else csi_scan buffer (i + 1))
      else i)"
  by pat_completeness auto
termination
  by (relation "measure (\<lambda>(buffer, i). length buffer - i)") auto

declare csi_scan.simps [simp del]

function osc_scan :: "string \<Rightarrow> nat \<Rightarrow> nat" where
  "osc_scan buffer i =
     (if i < length buffer
      then (let c = buffer ! i
            in if c = CHR 0x07 then i
               else if c = CHR 0x1B \<and> i + 1 < length buffer \<and> buffer ! (i + 1) = CHR 0x5C
                    then i + 1
                    else osc_scan buffer (i + 1))
      else i)"
  by pat_completeness auto
termination
  by (relation "measure (\<lambda>(buffer, i). length buffer - i)") auto

declare osc_scan.simps [simp del]

lemma csi_scan_ge: "i \<le> csi_scan buffer i"
proof (induction buffer i rule: csi_scan.induct)
  case (1 buffer i)
  then show ?case
    by (subst csi_scan.simps) (auto simp: Let_def)
qed

lemma osc_scan_ge: "i \<le> osc_scan buffer i"
proof (induction buffer i rule: osc_scan.induct)
  case (1 buffer i)
  then show ?case
    by (subst osc_scan.simps) (auto simp: Let_def)
qed

text \<open>
  The block \<^verbatim>\<open>if (ch == 0x1B) { ... continue; }\<close>: it only moves the index. The value
  is the index at the \<^verbatim>\<open>continue\<close>, before the \<^verbatim>\<open>++i\<close> of the \<^verbatim>\<open>for\<close> loop.
\<close>

definition esc_skip :: "string \<Rightarrow> nat \<Rightarrow> nat" where
  "esc_skip buffer i =
     (if i + 1 < length buffer
      then (let next = buffer ! (i + 1)
            in if next = CHR ''['' then csi_scan buffer (i + 2)
               else if next = CHR '']'' then osc_scan buffer (i + 2)
               else i + 1)
      else i)"

lemma esc_skip_ge: "i \<le> esc_skip buffer i"
  using csi_scan_ge [of "i + 2" buffer] osc_scan_ge [of "i + 2" buffer]
  by (simp add: esc_skip_def Let_def)

text \<open>
  The loop \<^verbatim>\<open>for (i = 0; i < read; ++i)\<close> of \<^verbatim>\<open>_thread_run\<close> over one chunk \<open>buffer\<close>
  of \<open>read = length buffer\<close> bytes. The Windows and the POSIX loop are the same text;
  they differ in the \<^verbatim>\<open>_flush\<close> they call, which is the parameter \<open>flush\<close>. A chunk
  has at most 4096 bytes, so the index (\<^verbatim>\<open>DWORD\<close>, \<^verbatim>\<open>ssize_t\<close>) never wraps and is a
  natural number here.
\<close>

function chunk_loop ::
  "('a Impl_scheme \<Rightarrow> 'a Impl_scheme) \<Rightarrow> string \<Rightarrow> nat \<Rightarrow> 'a Impl_scheme \<Rightarrow> 'a Impl_scheme"
where
  "chunk_loop flush buffer i s =
     (if i < length buffer
      then (let ch = buffer ! i
            in if ch = CHR 0x1B
               then chunk_loop flush buffer (esc_skip buffer i + 1) s
               else if ch = CHR 0x0A \<or> ch = CHR 0x0D
                    then chunk_loop flush buffer (i + 1) (flush (append_char_to_line (CHR 0x00) s))
                    else chunk_loop flush buffer (i + 1) (append_char_to_line ch s))
      else s)"
  by pat_completeness auto
termination
proof (relation "measure (\<lambda>(flush, buffer, i, s). length buffer - i)")
  fix buffer :: string and i :: nat
  assume "i < length buffer"
  moreover have "i \<le> esc_skip buffer i" by (rule esc_skip_ge)
  ultimately show "((flush, buffer, esc_skip buffer i + 1, s), (flush, buffer, i, s))
      \<in> measure (\<lambda>(flush, buffer, i, s). length buffer - i)" for flush :: "'a Impl_scheme \<Rightarrow> 'a Impl_scheme" and s :: "'a Impl_scheme"
    by simp
qed auto

declare chunk_loop.simps [simp del]

definition win_consume :: "Decoders \<Rightarrow> string \<Rightarrow> 'a Impl_scheme \<Rightarrow> 'a Impl_scheme" where
  "win_consume D buffer s = chunk_loop (win_flush D) buffer 0 s"

definition posix_consume :: "Decoders \<Rightarrow> string \<Rightarrow> 'a Impl_scheme \<Rightarrow> 'a Impl_scheme" where
  "posix_consume D buffer s = chunk_loop (posix_flush D) buffer 0 s"

text \<open>
  The index of the \<^verbatim>\<open>for\<close> loop alone: \<open>loop_reaches buffer i k\<close> holds when the loop,
  started with index \<open>i\<close>, tests its condition with the index equal to \<open>k\<close>. An index
  inside an escape sequence that the loop skips is not reached.
\<close>

function loop_reaches :: "string \<Rightarrow> nat \<Rightarrow> nat \<Rightarrow> bool" where
  "loop_reaches buffer i k =
     (if i = k then True
      else if i < length buffer \<and> i < k
           then loop_reaches buffer ((if buffer ! i = CHR 0x1B then esc_skip buffer i else i) + 1) k
           else False)"
  by pat_completeness auto
termination
proof (relation "measure (\<lambda>(buffer, i, k). length buffer - i)")
  fix buffer :: string and i k :: nat
  assume "i < length buffer \<and> i < k"
  moreover have "i \<le> esc_skip buffer i" by (rule esc_skip_ge)
  ultimately show "((buffer, (if buffer ! i = CHR 0x1B then esc_skip buffer i else i) + 1, k), (buffer, i, k))
      \<in> measure (\<lambda>(buffer, i, k). length buffer - i)"
    by auto
qed auto

declare loop_reaches.simps [simp del]

section \<open>Windows command line\<close>

text \<open>
  \<^verbatim>\<open>_quote_command_line_argument\<close>: the \<^verbatim>\<open>for\<close> loop over the characters of \<open>p_text\<close>
  returns the quoted text at the first character of the list; \<open>quote_scan p_text cs\<close>
  is the loop with the characters \<open>cs\<close> still to look at.
\<close>

fun quote_scan :: "String \<Rightarrow> String \<Rightarrow> String" where
  "quote_scan p_text [] = p_text"
| "quote_scan p_text (c # cs) =
     (if c = u CHR '' '' \<or> c = u CHR ''&'' \<or> c = u CHR ''('' \<or> c = u CHR '')'' \<or> c = u CHR ''[''
         \<or> c = u CHR '']'' \<or> c = u CHR ''{'' \<or> c = u CHR ''}'' \<or> c = u CHR ''^'' \<or> c = u CHR ''=''
         \<or> c = u CHR '';'' \<or> c = u CHR ''!'' \<or> c = u (CHR 0x27) \<or> c = u CHR ''+'' \<or> c = u CHR '',''
         \<or> c = u (CHR 0x60) \<or> c = u CHR ''~''
      then u (CHR 0x22) # p_text @ [u (CHR 0x22)]
      else quote_scan p_text cs)"

definition quote_command_line_argument :: "String \<Rightarrow> String" where
  "quote_command_line_argument p_text = quote_scan p_text p_text"

definition win_command :: "String \<Rightarrow> String list \<Rightarrow> String" where
  \<comment> \<open>the local \<^verbatim>\<open>command\<close> of the Windows \<^verbatim>\<open>on_start\<close>\<close>
  "win_command p_path p_arguments =
     (let path = map (\<lambda>c. if c = u CHR ''/'' then u (CHR 0x5C) else c) p_path
      in foldl (\<lambda>command E. command @ ascii '' '' @ quote_command_line_argument E)
           (quote_command_line_argument path) p_arguments)"

text \<open>The characters for which an argument is quoted, as the specification lists them.\<close>

definition quoting_chars :: String where
  "quoting_chars = ascii '' &()[]{}^=;!'' @ [u (CHR 0x27)] @ ascii ''+,'' @ [u (CHR 0x60)] @ ascii ''~''"

section \<open>Process handle: effects\<close>

definition call :: "os_call \<Rightarrow> 'a Impl_scheme \<Rightarrow> 'a Impl_scheme" where
  "call c s = s\<lparr>calls := calls s @ [c]\<rparr>"

definition log_to_sink :: "Severity \<Rightarrow> string \<Rightarrow> String list \<Rightarrow> 'a Impl_scheme \<Rightarrow> 'a Impl_scheme" where
  "log_to_sink severity format args s = s\<lparr>sink := sink s @ [JSB_PROCESS_LOG severity format args]\<rparr>"

text \<open>
  \<^verbatim>\<open>Process::stop\<close>, \<^verbatim>\<open>Process::start\<close>, \<^verbatim>\<open>Process::create\<close> and
  \<^verbatim>\<open>Process::is_running\<close>. The virtual members \<^verbatim>\<open>_is_running\<close>, \<^verbatim>\<open>on_stop\<close> and
  \<^verbatim>\<open>on_start\<close> are parameters. \<^verbatim>\<open>start\<close> returns \<^verbatim>\<open>void\<close>: its value is the unit and
  the object as \<^verbatim>\<open>on_start\<close> left it. \<^verbatim>\<open>create\<close> returns the object.
\<close>

definition Process_is_running :: "('s \<Rightarrow> bool) \<Rightarrow> 's \<Rightarrow> bool" where
  "Process_is_running is_running_impl s = is_running_impl s"

definition Process_stop :: "('s \<Rightarrow> bool) \<Rightarrow> ('s \<Rightarrow> 's) \<Rightarrow> 's \<Rightarrow> 's" where
  "Process_stop is_running_impl on_stop s =
     (if \<not> Process_is_running is_running_impl s then s else on_stop s)"

definition Process_start ::
  "(String \<Rightarrow> String \<Rightarrow> String list \<Rightarrow> 's \<Rightarrow> 'r \<times> 's) \<Rightarrow>
   String \<Rightarrow> String \<Rightarrow> String list \<Rightarrow> 's \<Rightarrow> unit \<times> 's" where
  "Process_start on_start p_name p_path p_arguments s =
     ((), snd (on_start p_name p_path p_arguments s))"

definition Process_create ::
  "'s \<Rightarrow> (String \<Rightarrow> String \<Rightarrow> String list \<Rightarrow> 's \<Rightarrow> 'r \<times> 's) \<Rightarrow>
   String \<Rightarrow> String \<Rightarrow> String list \<Rightarrow> 's" where
  "Process_create impl on_start p_name p_path p_arguments =
     snd (Process_start on_start p_name p_path p_arguments impl)"

section \<open>Windows \<^verbatim>\<open>ProcessImpl\<close>\<close>

record WinImpl = Impl +
  pi_si :: STARTUPINFO
  pi_pi :: PROCESS_INFORMATION
  rd_pipe :: HANDLE

definition ProcessImpl_win :: WinImpl where
  \<comment> \<open>the constructor: the member initialisers\<close>
  "ProcessImpl_win = \<lparr>proc_name = [], rd_line = [], is_closing = False, sink = [], calls = [],
     pi_si = \<lparr>dwFlags = 0, hStdOutput = 0, hStdError = 0\<rparr>,
     pi_pi = \<lparr>hProcess = 0, hThread = 0\<rparr>, rd_pipe = 0\<rparr>"

text \<open>
  What the operating system answers: the handles \<^verbatim>\<open>CreatePipe\<close> and \<^verbatim>\<open>CreateProcessW\<close>
  give (\<open>None\<close> when the call fails), whether \<^verbatim>\<open>SetHandleInformation\<close> succeeds, and the
  exit code \<^verbatim>\<open>GetExitCodeProcess\<close> reports (\<open>None\<close> when that call fails).
\<close>

record win_os =
  CreatePipe_result :: "(HANDLE \<times> HANDLE) option"
  SetHandleInformation_result :: bool
  CreateProcessW_result :: "(HANDLE \<times> HANDLE) option"
  GetExitCodeProcess_result :: "32 word option"

definition STARTF_USESTDHANDLES :: "32 word" where
  "STARTF_USESTDHANDLES = 0x100"

definition STILL_ACTIVE :: "32 word" where
  "STILL_ACTIVE = 259"

definition win_on_start ::
  "win_os \<Rightarrow> String \<Rightarrow> String \<Rightarrow> String list \<Rightarrow> WinImpl \<Rightarrow> Error \<times> WinImpl" where
  "win_on_start os p_name p_path p_arguments s =
     (let command = win_command p_path p_arguments;
          s1 = s\<lparr>pi_si := \<lparr>dwFlags = 0, hStdOutput = 0, hStdError = 0\<rparr>,
                 pi_pi := \<lparr>hProcess = 0, hThread = 0\<rparr>\<rparr>;
          s2 = call (CreatePipe (CreatePipe_result os)) s1
      in case CreatePipe_result os of
           None \<Rightarrow> (ERR_CANT_FORK, s2)
         | Some (pipe0, pipe1) \<Rightarrow>
             (let s3 = call (SetHandleInformation pipe0 (SetHandleInformation_result os)) s2
              in if \<not> SetHandleInformation_result os then (ERR_CANT_FORK, s3)
                 else
                   (let si = \<lparr>dwFlags = dwFlags (pi_si s3) OR STARTF_USESTDHANDLES,
                              hStdOutput = pipe1, hStdError = pipe1\<rparr>;
                        s4 = call (CreateProcessW command si (CreateProcessW_result os))
                               (s3\<lparr>pi_si := si\<rparr>)
                    in case CreateProcessW_result os of
                         None \<Rightarrow>
                           (ERR_CANT_FORK, call (CloseHandle pipe1) (call (CloseHandle pipe0) s4))
                       | Some (hp, ht) \<Rightarrow>
                           (let s5 = call (CloseHandle pipe1)
                                       (s4\<lparr>pi_pi := \<lparr>hProcess = hp, hThread = ht\<rparr>\<rparr>);
                                s6 = s5\<lparr>rd_pipe := pipe0, proc_name := p_name\<rparr>
                            in (OK, call Thread_start s6)))))"

definition win_is_running :: "win_os \<Rightarrow> WinImpl \<Rightarrow> bool" where
  \<comment> \<open>\<^verbatim>\<open>_is_running\<close>\<close>
  "win_is_running os s =
     (if is_closing s \<or> hProcess (pi_pi s) = 0 then False
      else case GetExitCodeProcess_result os of
             None \<Rightarrow> False
           | Some dw_exit_code \<Rightarrow> if dw_exit_code \<noteq> STILL_ACTIVE then False else True)"

definition win_on_stop :: "WinImpl \<Rightarrow> WinImpl" where
  "win_on_stop s =
     (let s1 = s\<lparr>is_closing := True\<rparr>;
          s2 = log_to_sink Verbose ''[%s] terminating...'' [proc_name s1] s1;
          s3 = call (TerminateProcess (hProcess (pi_pi s2)) 0) s2;
          s4 = call (CloseHandle (hProcess (pi_pi s3))) s3;
          s5 = call (CloseHandle (hThread (pi_pi s4))) s4;
          s6 = call (CloseHandle (rd_pipe s5)) s5;
          s7 = s6\<lparr>rd_pipe := 0\<rparr>;
          s8 = call Thread_wait_to_finish s7
      in log_to_sink Log ''[%s] terminated'' [proc_name s8] s8)"

definition win_stop :: "win_os \<Rightarrow> WinImpl \<Rightarrow> WinImpl" where
  "win_stop os s = Process_stop (win_is_running os) win_on_stop s"

definition win_create :: "win_os \<Rightarrow> String \<Rightarrow> String \<Rightarrow> String list \<Rightarrow> WinImpl" where
  "win_create os p_name p_path p_arguments =
     Process_create ProcessImpl_win (win_on_start os) p_name p_path p_arguments"

text \<open>The handles that were created and not closed, read off the calls.\<close>

fun handle_step :: "HANDLE set \<Rightarrow> os_call \<Rightarrow> HANDLE set" where
  "handle_step H (CreatePipe (Some (r, w))) = H \<union> {r, w}"
| "handle_step H (CreateProcessW command si (Some (hp, ht))) = H \<union> {hp, ht}"
| "handle_step H (CloseHandle h) = H - {h}"
| "handle_step H c = H"

definition open_handles :: "os_call list \<Rightarrow> HANDLE set" where
  "open_handles cs = foldl handle_step {} cs"

section \<open>POSIX \<^verbatim>\<open>ProcessImpl\<close>\<close>

text \<open>
  \<open>pipefd0\<close> and \<open>pipefd1\<close> are \<^verbatim>\<open>pipefd[0]\<close> and \<^verbatim>\<open>pipefd[1]\<close>; \<open>child_id\<close> is the
  member \<^verbatim>\<open>child_id_\<close>.
\<close>

record PosixImpl = Impl +
  pipefd0 :: int
  pipefd1 :: int
  child_id :: int

definition ProcessImpl_posix :: PosixImpl where
  \<comment> \<open>the constructor: the member initialisers\<close>
  "ProcessImpl_posix = \<lparr>proc_name = [], rd_line = [], is_closing = False, sink = [], calls = [],
     pipefd0 = 0, pipefd1 = 0, child_id = - 1\<rparr>"

text \<open>
  What the operating system answers: the descriptors of \<^verbatim>\<open>pipe\<close> (\<open>None\<close> when it returns
  -1), the value of \<^verbatim>\<open>fork\<close> (negative on failure, 0 in the child, the child's id in the
  parent), whether \<^verbatim>\<open>execvp\<close> replaces the image, the value of \<^verbatim>\<open>kill\<close>, and the value
  of \<^verbatim>\<open>waitpid(child_id_, &status, WNOHANG)\<close>.
\<close>

record posix_os =
  pipe_result :: "(int \<times> int) option"
  fork_result :: int
  execvp_replaces :: bool
  kill_result :: int
  waitpid_WNOHANG_result :: int

definition SIGKILL :: int where
  "SIGKILL = 9"

definition STDOUT_FILENO :: int where
  "STDOUT_FILENO = 1"

definition STDERR_FILENO :: int where
  "STDERR_FILENO = 2"

text \<open>
  \<^verbatim>\<open>on_start\<close> runs in the parent and, after \<^verbatim>\<open>fork\<close>, in the child. In the child it does
  not return: \<^verbatim>\<open>execvp\<close> replaces the image or the child kills itself; the value is
  \<open>None\<close> then. The argument vector of \<^verbatim>\<open>execvp\<close> is the path followed by the arguments.
\<close>

definition posix_on_start ::
  "posix_os \<Rightarrow> String \<Rightarrow> String \<Rightarrow> String list \<Rightarrow> PosixImpl \<Rightarrow> Error option \<times> PosixImpl" where
  "posix_on_start os p_name p_path p_arguments s =
     (let s1 = s\<lparr>proc_name := p_name\<rparr>;
          s2 = call (pipe_call (pipe_result os)) s1
      in case pipe_result os of
           None \<Rightarrow> (Some ERR_CANT_CREATE, s2)
         | Some (fd0, fd1) \<Rightarrow>
             (let s3 = s2\<lparr>pipefd0 := fd0, pipefd1 := fd1\<rparr>;
                  s4 = (call (fork_call (fork_result os)) s3)\<lparr>child_id := fork_result os\<rparr>
              in if child_id s4 < 0 then (Some ERR_CANT_FORK, s4)
                 else if child_id s4 = 0
                 then
                   (let c1 = call setsid_call s4;
                        c2 = call (close_call (pipefd0 c1)) c1;
                        c3 = call (dup2_call (pipefd1 c2) STDOUT_FILENO) c2;
                        c4 = call (close_call (pipefd1 c3)) c3;
                        c5 = call (execvp_call p_path (p_path # p_arguments)) c4
                    in if execvp_replaces os then (None, c5)
                       else (None, call (raise_call SIGKILL)
                                     (log_to_sink Error ''failed to create process %s'' [p_path] c5)))
                 else
                   (let s5 = call (close_call (pipefd1 s4)) s4
                    in (Some OK, call Thread_start s5))))"

definition posix_is_running :: "posix_os \<Rightarrow> PosixImpl \<Rightarrow> bool" where
  \<comment> \<open>\<^verbatim>\<open>_is_running\<close>\<close>
  "posix_is_running os s =
     (if is_closing s \<or> child_id s < 0 then False
      else waitpid_WNOHANG_result os = 0)"

definition posix_on_stop :: "posix_os \<Rightarrow> PosixImpl \<Rightarrow> PosixImpl" where
  "posix_on_stop os s =
     (let s1 = s\<lparr>is_closing := True\<rparr>;
          s2 = log_to_sink Verbose ''[%s] terminating...'' [proc_name s1] s1;
          ret = kill_result os;
          s3 = call (kill_call (child_id s2) SIGKILL ret) s2;
          s4 = call (close_call (pipefd0 s3)) s3;
          s5 = s4\<lparr>pipefd0 := 0, pipefd1 := 0\<rparr>;
          s6 = (if ret = 0 then call (waitpid_call (child_id s5) 0) s5 else s5);
          s7 = call Thread_wait_to_finish s6
      in log_to_sink Log ''[%s] terminated'' [proc_name s7] s7)"

definition posix_stop :: "posix_os \<Rightarrow> PosixImpl \<Rightarrow> PosixImpl" where
  "posix_stop os s = Process_stop (posix_is_running os) (posix_on_stop os) s"

definition posix_create :: "posix_os \<Rightarrow> String \<Rightarrow> String \<Rightarrow> String list \<Rightarrow> PosixImpl" where
  "posix_create os p_name p_path p_arguments =
     Process_create ProcessImpl_posix (posix_on_start os) p_name p_path p_arguments"

text \<open>
  The descriptor table of the process that made the calls, read off the calls: \<^verbatim>\<open>pipe\<close>
  enters the two ends, \<^verbatim>\<open>close\<close> removes a descriptor, \<^verbatim>\<open>dup2(old, new)\<close> makes \<open>new\<close>
  refer to what \<open>old\<close> refers to. A child starts with a copy of its parent's table, so
  the table of the child is the table of all the calls up to \<^verbatim>\<open>execvp\<close>. The table
  before \<^verbatim>\<open>on_start\<close> holds the three standard streams the process inherited.
\<close>

datatype open_file = PipeRead | PipeWrite | Inherited int

fun fd_step :: "(int \<Rightarrow> open_file option) \<Rightarrow> os_call \<Rightarrow> (int \<Rightarrow> open_file option)" where
  "fd_step t (pipe_call (Some (fd0, fd1))) = t(fd0 \<mapsto> PipeRead, fd1 \<mapsto> PipeWrite)"
| "fd_step t (close_call fd) = t(fd := None)"
| "fd_step t (dup2_call old new) = (if t old = None then t else t(new := t old))"
| "fd_step t c = t"

definition std_files :: "int \<Rightarrow> open_file option" where
  "std_files = [0 \<mapsto> Inherited 0, 1 \<mapsto> Inherited 1, 2 \<mapsto> Inherited 2]"

definition files_after :: "os_call list \<Rightarrow> int \<Rightarrow> open_file option" where
  "files_after cs = foldl fd_step std_files cs"

section \<open>Example answers of the operating system\<close>

text \<open>
  A Windows system on which every call of \<^verbatim>\<open>on_start\<close> succeeds and the child is still
  active; the same with a child that has exited with code 0; the same with
  \<^verbatim>\<open>CreatePipe\<close> failing. A POSIX system on which \<^verbatim>\<open>pipe\<close> and \<^verbatim>\<open>fork\<close> succeed (the
  parent's side, child 100) and the child is still running; the same with a child that
  has exited.
\<close>

definition win_os_running :: win_os where
  "win_os_running = \<lparr>CreatePipe_result = Some (3, 4), SetHandleInformation_result = True,
     CreateProcessW_result = Some (5, 6), GetExitCodeProcess_result = Some STILL_ACTIVE\<rparr>"

definition win_os_exited :: win_os where
  "win_os_exited = win_os_running\<lparr>GetExitCodeProcess_result := Some 0\<rparr>"

definition posix_os_running :: posix_os where
  "posix_os_running = \<lparr>pipe_result = Some (3, 4), fork_result = 100, execvp_replaces = True,
     kill_result = 0, waitpid_WNOHANG_result = 0\<rparr>"

definition posix_os_exited :: posix_os where
  "posix_os_exited = posix_os_running\<lparr>waitpid_WNOHANG_result := 100\<rparr>"

definition win_os_no_pipe :: win_os where
  "win_os_no_pipe = win_os_running\<lparr>CreatePipe_result := None\<rparr>"

section \<open>Well-formed escape sequences\<close>

text \<open>
  The final byte of a CSI sequence is a byte in 0x40 .. 0x7E; the bytes between
  \<^verbatim>\<open>ESC [\<close> and the final byte are any bytes outside that range (the parameter and
  intermediate bytes 0x20 .. 0x3F of ECMA-48 among them). The payload of an OSC sequence
  holds neither BEL nor ESC.
\<close>

definition csi_final :: "char \<Rightarrow> bool" where
  "csi_final c = ((of_char c :: nat) \<ge> 0x40 \<and> (of_char c :: nat) \<le> 0x7E)"

definition osc_payload :: "string \<Rightarrow> bool" where
  "osc_payload cs = (CHR 0x07 \<notin> set cs \<and> CHR 0x1B \<notin> set cs)"

definition csi_seq :: "string \<Rightarrow> char \<Rightarrow> string" where
  "csi_seq params final = CHR 0x1B # CHR ''['' # params @ [final]"

definition osc_seq_bel :: "string \<Rightarrow> string" where
  "osc_seq_bel payload = CHR 0x1B # CHR '']'' # payload @ [CHR 0x07]"

definition osc_seq_st :: "string \<Rightarrow> string" where
  "osc_seq_st payload = CHR 0x1B # CHR '']'' # payload @ [CHR 0x1B, CHR 0x5C]"

section \<open>The chunk loop on lists\<close>

lemma csi_scan_Cons: "csi_scan (c # cs) (Suc i) = Suc (csi_scan cs i)"
proof (induction cs i rule: csi_scan.induct)
  case (1 buffer i)
  then show ?case
    by (subst csi_scan.simps, subst (2) csi_scan.simps) (simp add: Let_def)
qed

lemma osc_scan_Cons: "osc_scan (c # cs) (Suc i) = Suc (osc_scan cs i)"
proof (induction cs i rule: osc_scan.induct)
  case (1 buffer i)
  then show ?case
    by (subst osc_scan.simps, subst (2) osc_scan.simps) (simp add: Let_def)
qed

lemma esc_skip_Cons: "esc_skip (c # cs) (Suc i) = Suc (esc_skip cs i)"
  by (simp add: esc_skip_def Let_def csi_scan_Cons osc_scan_Cons)

lemma chunk_loop_Cons: "chunk_loop F (c # cs) (Suc i) s = chunk_loop F cs i s"
proof (induction F cs i s rule: chunk_loop.induct)
  case (1 flush buffer i s)
  then show ?case
    by (subst chunk_loop.simps, subst (2) chunk_loop.simps) (simp add: Let_def esc_skip_Cons)
qed

lemma loop_reaches_Cons: "loop_reaches (c # cs) (Suc i) (Suc k) = loop_reaches cs i k"
proof (induction cs i k rule: loop_reaches.induct)
  case (1 buffer i k)
  then show ?case
    by (subst loop_reaches.simps, subst (2) loop_reaches.simps) (auto simp: esc_skip_Cons)
qed

lemma chunk_loop_shift: "chunk_loop F (xs @ ys) (length xs + i) s = chunk_loop F ys i s"
  by (induction xs) (simp_all add: chunk_loop_Cons)

lemma csi_scan_shift: "csi_scan (xs @ ys) (length xs + i) = length xs + csi_scan ys i"
  by (induction xs) (simp_all add: csi_scan_Cons)

lemma osc_scan_shift: "osc_scan (xs @ ys) (length xs + i) = length xs + osc_scan ys i"
  by (induction xs) (simp_all add: osc_scan_Cons)

lemma loop_reaches_shift: "loop_reaches (xs @ ys) (length xs + i) (length xs + k) = loop_reaches ys i k"
  by (induction xs) (simp_all add: loop_reaches_Cons)


lemma csi_scan_local: "csi_scan (xs @ ys) i < length xs \<Longrightarrow> csi_scan xs i = csi_scan (xs @ ys) i"
proof (induction xs i rule: csi_scan.induct)
  case (1 buffer i)
  have i: "i < length buffer" using 1(2) csi_scan_ge [of i "buffer @ ys"] by simp
  show ?case
  proof (cases "(of_char (buffer ! i) :: nat) \<ge> 0x40 \<and> (of_char (buffer ! i) :: nat) \<le> 0x7E")
    case True
    with i show ?thesis
      by (subst csi_scan.simps, subst (2) csi_scan.simps) (simp add: Let_def nth_append)
  next
    case False
    with i have a: "csi_scan (buffer @ ys) i = csi_scan (buffer @ ys) (i + 1)"
      by (subst csi_scan.simps) (auto simp: Let_def nth_append)
    from False i have b: "csi_scan buffer i = csi_scan buffer (i + 1)"
      by (subst csi_scan.simps) (auto simp: Let_def)
    from 1(1) [OF i refl False] 1(2) a b show ?thesis by simp
  qed
qed

lemma osc_scan_local: "osc_scan (xs @ ys) i < length xs \<Longrightarrow> osc_scan xs i = osc_scan (xs @ ys) i"
proof (induction xs i rule: osc_scan.induct)
  case (1 buffer i)
  have i: "i < length buffer" using 1(2) osc_scan_ge [of i "buffer @ ys"] by simp
  consider (bel) "buffer ! i = CHR 0x07"
    | (st) "buffer ! i \<noteq> CHR 0x07" "buffer ! i = CHR 0x1B \<and> i + 1 < length (buffer @ ys) \<and> (buffer @ ys) ! (i + 1) = CHR 0x5C"
    | (go) "buffer ! i \<noteq> CHR 0x07" "\<not> (buffer ! i = CHR 0x1B \<and> i + 1 < length (buffer @ ys) \<and> (buffer @ ys) ! (i + 1) = CHR 0x5C)"
    by blast
  then show ?case
  proof cases
    case bel
    with i show ?thesis
      by (subst osc_scan.simps, subst (2) osc_scan.simps) (simp add: Let_def nth_append)
  next
    case st
    with i have a: "osc_scan (buffer @ ys) i = i + 1"
      by (subst osc_scan.simps) (simp add: Let_def nth_append)
    with 1(2) have "i + 1 < length buffer" by simp
    with st i have "osc_scan buffer i = i + 1"
      by (subst osc_scan.simps) (simp add: Let_def nth_append)
    with a show ?thesis by simp
  next
    case go
    with i have a: "osc_scan (buffer @ ys) i = osc_scan (buffer @ ys) (i + 1)"
      by (subst osc_scan.simps) (auto simp: Let_def nth_append)
    from go i have n: "\<not> (buffer ! i = CHR 0x1B \<and> i + 1 < length buffer \<and> buffer ! (i + 1) = CHR 0x5C)"
      by (auto simp: nth_append)
    with go i have b: "osc_scan buffer i = osc_scan buffer (i + 1)"
      by (subst osc_scan.simps) (auto simp: Let_def)
    from 1(1) [OF i refl go(1) n] 1(2) a b show ?thesis by simp
  qed
qed

lemma esc_skip_local:
  "esc_skip (xs @ ys) i < length xs \<Longrightarrow> esc_skip xs i = esc_skip (xs @ ys) i"
proof -
  assume a: "esc_skip (xs @ ys) i < length xs"
  have i: "i < length xs" using a esc_skip_ge [of i "xs @ ys"] by simp
  show ?thesis
  proof (cases "i + 1 < length xs")
    case True
    then show ?thesis
      using a csi_scan_local [of xs ys "i + 2"] osc_scan_local [of xs ys "i + 2"]
      by (auto simp: esc_skip_def Let_def nth_append)
  next
    case False
    then show ?thesis
      using a i csi_scan_ge [of "i + 2" "xs @ ys"] osc_scan_ge [of "i + 2" "xs @ ys"]
      by (auto simp: esc_skip_def Let_def nth_append split: if_splits)
  qed
qed

lemma loop_reaches_le: "loop_reaches buffer i k \<Longrightarrow> i \<le> k"
  by (subst (asm) loop_reaches.simps) (auto split: if_splits)

lemma chunk_loop_split_at:
  "loop_reaches (xs @ ys) i (length xs) \<Longrightarrow>
   chunk_loop F (xs @ ys) i s = chunk_loop F ys 0 (chunk_loop F xs i s)"
proof (induction F xs i s rule: chunk_loop.induct)
  case (1 flush buffer i s)
  note reach = 1(4)
  show ?case
  proof (cases "i = length buffer")
    case True
    have "chunk_loop flush buffer i s = s"
      using True by (subst chunk_loop.simps) simp
    moreover have "chunk_loop flush (buffer @ ys) i s = chunk_loop flush ys 0 s"
      using True chunk_loop_shift [of flush buffer ys 0 s] by simp
    ultimately show ?thesis by simp
  next
    case False
    with loop_reaches_le [OF reach] have i: "i < length buffer" by simp
    let ?j = "(if buffer ! i = CHR 0x1B then esc_skip (buffer @ ys) i else i) + 1"
    from reach i False have r: "loop_reaches (buffer @ ys) ?j (length buffer)"
      by (subst (asm) loop_reaches.simps) (simp add: nth_append)
    show ?thesis
    proof (cases "buffer ! i = CHR 0x1B")
      case True
      with loop_reaches_le [OF r] have "esc_skip (buffer @ ys) i < length buffer" by simp
      then have e: "esc_skip buffer i = esc_skip (buffer @ ys) i" by (rule esc_skip_local)
      from True r e have r': "loop_reaches (buffer @ ys) (esc_skip buffer i + 1) (length buffer)" by simp
      have "chunk_loop flush (buffer @ ys) i s = chunk_loop flush (buffer @ ys) (esc_skip buffer i + 1) s"
        using i True e by (subst chunk_loop.simps) (simp add: nth_append)
      also have "\<dots> = chunk_loop flush ys 0 (chunk_loop flush buffer (esc_skip buffer i + 1) s)"
        using 1(1) [OF i refl True r'] .
      also have "chunk_loop flush buffer (esc_skip buffer i + 1) s = chunk_loop flush buffer i s"
        using i True by (subst (2) chunk_loop.simps) simp
      finally show ?thesis .
    next
      case False
      with r have r': "loop_reaches (buffer @ ys) (i + 1) (length buffer)" by simp
      show ?thesis
      proof (cases "buffer ! i = CHR 0x0A \<or> buffer ! i = CHR 0x0D")
        case True
        have "chunk_loop flush (buffer @ ys) i s
            = chunk_loop flush (buffer @ ys) (i + 1) (flush (append_char_to_line (CHR 0x00) s))"
          using i False True by (subst chunk_loop.simps) (simp add: nth_append)
        also have "\<dots> = chunk_loop flush ys 0 (chunk_loop flush buffer (i + 1) (flush (append_char_to_line (CHR 0x00) s)))"
          using 1(2) [OF i refl False True r'] .
        also have "chunk_loop flush buffer (i + 1) (flush (append_char_to_line (CHR 0x00) s)) = chunk_loop flush buffer i s"
          using i False True by (subst (2) chunk_loop.simps) simp
        finally show ?thesis .
      next
        case nl: False
        have "chunk_loop flush (buffer @ ys) i s
            = chunk_loop flush (buffer @ ys) (i + 1) (append_char_to_line (buffer ! i) s)"
          using i False nl by (subst chunk_loop.simps) (simp add: nth_append)
        also have "\<dots> = chunk_loop flush ys 0 (chunk_loop flush buffer (i + 1) (append_char_to_line (buffer ! i) s))"
          using 1(3) [OF i refl False nl r'] .
        also have "chunk_loop flush buffer (i + 1) (append_char_to_line (buffer ! i) s) = chunk_loop flush buffer i s"
          using i False nl by (subst (2) chunk_loop.simps) simp
        finally show ?thesis .
      qed
    qed
  qed
qed


lemma chunk_loop_Nil: "chunk_loop F [] 0 s = s"
  by (subst chunk_loop.simps) simp

lemma chunk_loop_text:
  "c \<noteq> CHR 0x1B \<Longrightarrow> chunk_loop F (c # cs) 0 s =
     chunk_loop F cs 0 (if c = CHR 0x0A \<or> c = CHR 0x0D then F (append_char_to_line (CHR 0x00) s)
                        else append_char_to_line c s)"
  using chunk_loop_Cons [of F c cs 0]
  by (subst chunk_loop.simps) (simp add: Let_def)

lemma chunk_loop_esc_last: "chunk_loop F [CHR 0x1B] 0 s = s"
  by (subst chunk_loop.simps, subst chunk_loop.simps) (simp add: esc_skip_def)

lemma chunk_loop_esc_other:
  "n \<noteq> CHR ''['' \<Longrightarrow> n \<noteq> CHR '']'' \<Longrightarrow> chunk_loop F (CHR 0x1B # n # cs) 0 s = chunk_loop F cs 0 s"
  using chunk_loop_shift [of F "[CHR 0x1B, n]" cs 0 s]
  by (subst chunk_loop.simps) (simp add: esc_skip_def)

lemma csi_scan_params:
  "\<forall>p \<in> set params. \<not> csi_final p \<Longrightarrow> csi_final final \<Longrightarrow>
   csi_scan (params @ final # post) 0 = length params"
proof (induction params)
  case Nil
  then show ?case by (subst csi_scan.simps) (simp add: csi_final_def)
next
  case (Cons p ps)
  then have "csi_scan (p # ps @ final # post) 0 = csi_scan (p # ps @ final # post) (Suc 0)"
    by (subst csi_scan.simps) (auto simp: csi_final_def Let_def)
  with Cons show ?case by (simp add: csi_scan_Cons)
qed

lemma osc_scan_bel:
  "osc_payload payload \<Longrightarrow> osc_scan (payload @ CHR 0x07 # post) 0 = length payload"
proof (induction payload)
  case Nil
  then show ?case by (subst osc_scan.simps) simp
next
  case (Cons p ps)
  then have "osc_scan (p # ps @ CHR 0x07 # post) 0 = osc_scan (p # ps @ CHR 0x07 # post) (Suc 0)"
    by (subst osc_scan.simps) (auto simp: osc_payload_def Let_def)
  with Cons show ?case by (simp add: osc_scan_Cons osc_payload_def)
qed

lemma osc_scan_st:
  "osc_payload payload \<Longrightarrow> osc_scan (payload @ CHR 0x1B # CHR 0x5C # post) 0 = length payload + 1"
proof (induction payload)
  case Nil
  then show ?case by (subst osc_scan.simps) simp
next
  case (Cons p ps)
  then have "osc_scan (p # ps @ CHR 0x1B # CHR 0x5C # post) 0 = osc_scan (p # ps @ CHR 0x1B # CHR 0x5C # post) (Suc 0)"
    by (subst osc_scan.simps) (auto simp: osc_payload_def Let_def)
  with Cons show ?case by (simp add: osc_scan_Cons osc_payload_def)
qed

lemma chunk_loop_csi:
  assumes "\<forall>p \<in> set params. \<not> csi_final p" and "csi_final final"
  shows "chunk_loop F ((CHR 0x1B # CHR ''['' # params @ [final]) @ post) 0 s = chunk_loop F post 0 s"
proof -
  let ?seq = "CHR 0x1B # CHR ''['' # params @ [final]"
  have "csi_scan (?seq @ post) (Suc (Suc 0)) = Suc (Suc (length params))"
    using csi_scan_params [OF assms, of post] by (simp add: csi_scan_Cons)
  then have "esc_skip (?seq @ post) 0 + 1 = length ?seq"
    by (simp add: esc_skip_def numeral_2_eq_2)
  then have "chunk_loop F (?seq @ post) 0 s = chunk_loop F (?seq @ post) (length ?seq + 0) s"
    by (subst chunk_loop.simps) (simp add: Let_def)
  then show ?thesis by (simp only: chunk_loop_shift)
qed

lemma chunk_loop_osc_bel:
  assumes "osc_payload payload"
  shows "chunk_loop F ((CHR 0x1B # CHR '']'' # payload @ [CHR 0x07]) @ post) 0 s = chunk_loop F post 0 s"
proof -
  let ?seq = "CHR 0x1B # CHR '']'' # payload @ [CHR 0x07]"
  have "osc_scan (?seq @ post) (Suc (Suc 0)) = Suc (Suc (length payload))"
    using osc_scan_bel [OF assms, of post] by (simp add: osc_scan_Cons)
  then have "esc_skip (?seq @ post) 0 + 1 = length ?seq"
    by (simp add: esc_skip_def numeral_2_eq_2)
  then have "chunk_loop F (?seq @ post) 0 s = chunk_loop F (?seq @ post) (length ?seq + 0) s"
    by (subst chunk_loop.simps) (simp add: Let_def)
  then show ?thesis by (simp only: chunk_loop_shift)
qed

lemma chunk_loop_osc_st:
  assumes "osc_payload payload"
  shows "chunk_loop F ((CHR 0x1B # CHR '']'' # payload @ [CHR 0x1B, CHR 0x5C]) @ post) 0 s = chunk_loop F post 0 s"
proof -
  let ?seq = "CHR 0x1B # CHR '']'' # payload @ [CHR 0x1B, CHR 0x5C]"
  have "osc_scan (?seq @ post) (Suc (Suc 0)) = Suc (Suc (length payload + 1))"
    using osc_scan_st [OF assms, of post] by (simp add: osc_scan_Cons)
  then have "esc_skip (?seq @ post) 0 + 1 = length ?seq"
    by (simp add: esc_skip_def numeral_2_eq_2)
  then have "chunk_loop F (?seq @ post) 0 s = chunk_loop F (?seq @ post) (length ?seq + 0) s"
    by (subst chunk_loop.simps) (simp add: Let_def)
  then show ?thesis by (simp only: chunk_loop_shift)
qed

lemma loop_reaches_text: "CHR 0x1B \<notin> set pre \<Longrightarrow> loop_reaches (pre @ ys) 0 (length pre)"
proof (induction pre)
  case Nil
  then show ?case by (subst loop_reaches.simps) simp
next
  case (Cons c cs)
  then have "loop_reaches (cs @ ys) 0 (length cs)" by simp
  then have "loop_reaches (c # cs @ ys) (Suc 0) (Suc (length cs))" by (simp only: loop_reaches_Cons)
  with Cons(2) show ?case by (subst loop_reaches.simps) auto
qed

section \<open>Evaluation and auxiliary facts\<close>

lemmas run_chunk = chunk_loop_Nil chunk_loop_text chunk_loop_esc_last chunk_loop_esc_other
  win_consume_def posix_consume_def

lemmas run_flush = win_flush_def posix_flush_def win_output_def append_char_to_line_def
  ascii_decoders_def ascii_def u_def cstr_def Let_def

lemma win_flush_sink:
  "sink (win_flush D s) =
     (if rd_line s \<noteq> [] \<and> win_output D (rd_line s) \<noteq> []
      then sink s @ [JSB_PROCESS_LOG Log ''[%s] %s'' [proc_name s, win_output D (rd_line s)]]
      else sink s)"
  by (simp add: win_flush_def Let_def)

lemma quote_scan_eq:
  "quote_scan t cs = (if \<exists>c \<in> set cs. c \<in> set quoting_chars then u (CHR 0x22) # t @ [u (CHR 0x22)] else t)"
  by (induction cs) (auto simp: quoting_chars_def ascii_def)

lemma consume_sequence:
  assumes "(seq = csi_seq params final \<and> (\<forall>p \<in> set params. \<not> csi_final p) \<and> csi_final final)
         \<or> (seq = osc_seq_bel payload \<and> osc_payload payload)
         \<or> (seq = osc_seq_st payload \<and> osc_payload payload)"
  shows "chunk_loop F (seq @ post) 0 s = chunk_loop F post 0 s"
  using assms chunk_loop_csi [of params final F post s] chunk_loop_osc_bel [of payload F post s]
    chunk_loop_osc_st [of payload F post s]
  by (auto simp: csi_seq_def osc_seq_bel_def osc_seq_st_def)

lemma is_closing_call [simp]: "is_closing (call c s) = is_closing s"
  by (simp add: call_def)

lemma is_closing_log [simp]: "is_closing (log_to_sink v f a s) = is_closing s"
  by (simp add: log_to_sink_def)

lemma calls_call [simp]: "calls (call c s) = calls s @ [c]"
  by (simp add: call_def)

lemma calls_log [simp]: "calls (log_to_sink v f a s) = calls s"
  by (simp add: log_to_sink_def)

lemma win_on_stop_closing: "is_closing (win_on_stop s)"
  by (simp add: win_on_stop_def Let_def)

lemma posix_on_stop_closing: "is_closing (posix_on_stop os s)"
  by (simp add: posix_on_stop_def Let_def)

lemma win_not_running_closing: "is_closing s \<Longrightarrow> \<not> win_is_running os s"
  by (simp add: win_is_running_def)

lemma posix_not_running_closing: "is_closing s \<Longrightarrow> \<not> posix_is_running os s"
  by (simp add: posix_is_running_def)

lemma win_stop_cases:
  "win_stop os s = (if win_is_running os s then win_on_stop s else s)"
  by (simp add: win_stop_def Process_stop_def Process_is_running_def)

lemma posix_stop_cases:
  "posix_stop os s = (if posix_is_running os s then posix_on_stop os s else s)"
  by (simp add: posix_stop_def Process_stop_def Process_is_running_def)

lemmas run_os = win_os_running_def win_os_exited_def posix_os_running_def posix_os_exited_def
  win_on_start_def posix_on_start_def win_create_def posix_create_def Process_create_def
  Process_start_def ProcessImpl_win_def ProcessImpl_posix_def call_def log_to_sink_def Let_def
  win_is_running_def posix_is_running_def STILL_ACTIVE_def STARTF_USESTDHANDLES_def
  win_on_stop_def posix_on_stop_def open_handles_def files_after_def std_files_def
  SIGKILL_def STDOUT_FILENO_def STDERR_FILENO_def

lemma win_on_start_OK:
  assumes "win_on_start os p_name p_path p_arguments ProcessImpl_win = (OK, s0)"
  shows "\<exists>r w hp ht si. calls s0 = [CreatePipe (Some (r, w)), SetHandleInformation r True,
            CreateProcessW (win_command p_path p_arguments) si (Some (hp, ht)), CloseHandle w, Thread_start]
          \<and> rd_pipe s0 = r \<and> pi_pi s0 = \<lparr>hProcess = hp, hThread = ht\<rparr> \<and> \<not> is_closing s0"
  using assms
  by (auto simp: win_on_start_def Let_def call_def ProcessImpl_win_def split: option.splits if_splits prod.splits)

lemma posix_on_start_OK:
  assumes "posix_on_start os p_name p_path p_arguments ProcessImpl_posix = (Some OK, s0)"
  shows "\<exists>r w pid. calls s0 = [pipe_call (Some (r, w)), fork_call pid, close_call w, Thread_start]
          \<and> pipefd0 s0 = r \<and> pipefd1 s0 = w \<and> child_id s0 = pid \<and> 0 < pid \<and> \<not> is_closing s0"
  using assms
  by (auto simp: posix_on_start_def Let_def call_def log_to_sink_def ProcessImpl_posix_def
      split: option.splits if_splits prod.splits)

lemma win_on_stop_calls:
  "calls (win_on_stop s) = calls s @ [TerminateProcess (hProcess (pi_pi s)) 0,
     CloseHandle (hProcess (pi_pi s)), CloseHandle (hThread (pi_pi s)), CloseHandle (rd_pipe s),
     Thread_wait_to_finish]"
  by (simp add: win_on_stop_def Let_def call_def log_to_sink_def)

lemma win_on_stop_rd_pipe: "rd_pipe (win_on_stop s) = 0"
  by (simp add: win_on_stop_def Let_def call_def log_to_sink_def)

lemma posix_on_stop_calls:
  "calls (posix_on_stop os s) = calls s @ [kill_call (child_id s) SIGKILL (kill_result os),
     close_call (pipefd0 s)] @ (if kill_result os = 0 then [waitpid_call (child_id s) 0] else [])
     @ [Thread_wait_to_finish]"
  by (simp add: posix_on_stop_def Let_def call_def log_to_sink_def)

lemma posix_on_stop_pipefd: "pipefd0 (posix_on_stop os s) = 0 \<and> pipefd1 (posix_on_stop os s) = 0"
  by (simp add: posix_on_stop_def Let_def call_def log_to_sink_def)

lemma win_on_start_result:
  "fst (win_on_start os p_name p_path p_arguments s) =
     (if CreatePipe_result os = None \<or> \<not> SetHandleInformation_result os \<or> CreateProcessW_result os = None
      then ERR_CANT_FORK else OK)"
  by (auto simp: win_on_start_def Let_def split: option.splits prod.splits)

lemma posix_on_start_result:
  "fst (posix_on_start os p_name p_path p_arguments s) =
     (case pipe_result os of
        None \<Rightarrow> Some ERR_CANT_CREATE
      | Some fds \<Rightarrow> if fork_result os < 0 then Some ERR_CANT_FORK
                    else if fork_result os = 0 then None else Some OK)"
  by (auto simp: posix_on_start_def Let_def call_def split: option.splits prod.splits)

lemma win_failed_not_running:
  "fst (win_on_start os p_name p_path p_arguments ProcessImpl_win) \<noteq> OK \<Longrightarrow>
   \<not> win_is_running os' (snd (win_on_start os p_name p_path p_arguments ProcessImpl_win))"
  by (auto simp: win_on_start_def Let_def call_def win_is_running_def ProcessImpl_win_def
      split: option.splits prod.splits if_splits)

lemma posix_failed_not_running:
  "fst (posix_on_start os p_name p_path p_arguments ProcessImpl_posix) \<in> {Some ERR_CANT_CREATE, Some ERR_CANT_FORK} \<Longrightarrow>
   \<not> posix_is_running os' (snd (posix_on_start os p_name p_path p_arguments ProcessImpl_posix))"
  by (auto simp: posix_on_start_def Let_def call_def posix_is_running_def ProcessImpl_posix_def
      split: option.splits prod.splits if_splits)

section \<open>The claims\<close>

text \<open>
  C1 (amended). Claim: for every handle whose \<^verbatim>\<open>start()\<close> succeeded and on which \<^verbatim>\<open>stop()\<close>
  has not completed before, \<^verbatim>\<open>stop()\<close> sets the shutdown flag, kills the child, closes
  the pipe read end, waits for the reader thread and releases all handles, also when the
  child has already exited on its own.
  \<^verbatim>\<open>stop()\<close> does all of that when \<^verbatim>\<open>is_running()\<close> holds at the call: the flag is set,
  the calls it adds are the kill, the closes and the join, in the order of the code, and
  no handle (Windows) or pipe descriptor (POSIX) that \<^verbatim>\<open>start()\<close> created is left open.
  When \<^verbatim>\<open>is_running()\<close> does not hold, as for a child that has exited, \<^verbatim>\<open>stop()\<close>
  returns at its guard and changes nothing. The reader thread may have changed the line
  buffer and the sink in between (\<open>l\<close>, \<open>k\<close>).
\<close>

theorem C1_stop_tears_down_running:
  "(win_on_start os0 p_name p_path p_arguments ProcessImpl_win = (OK, s0) \<longrightarrow>
      win_is_running os (s0\<lparr>rd_line := l, sink := k\<rparr>) \<longrightarrow>
      is_closing (win_stop os (s0\<lparr>rd_line := l, sink := k\<rparr>))
      \<and> calls (win_stop os (s0\<lparr>rd_line := l, sink := k\<rparr>)) =
          calls s0 @ [TerminateProcess (hProcess (pi_pi s0)) 0, CloseHandle (hProcess (pi_pi s0)),
            CloseHandle (hThread (pi_pi s0)), CloseHandle (rd_pipe s0), Thread_wait_to_finish]
      \<and> rd_pipe (win_stop os (s0\<lparr>rd_line := l, sink := k\<rparr>)) = 0
      \<and> open_handles (calls (win_stop os (s0\<lparr>rd_line := l, sink := k\<rparr>))) = {})
   \<and> (posix_on_start ps0 p_name p_path p_arguments ProcessImpl_posix = (Some OK, t0) \<longrightarrow>
      posix_is_running ps (t0\<lparr>rd_line := l, sink := k\<rparr>) \<longrightarrow>
      is_closing (posix_stop ps (t0\<lparr>rd_line := l, sink := k\<rparr>))
      \<and> calls (posix_stop ps (t0\<lparr>rd_line := l, sink := k\<rparr>)) =
          calls t0 @ [kill_call (child_id t0) SIGKILL (kill_result ps), close_call (pipefd0 t0)]
            @ (if kill_result ps = 0 then [waitpid_call (child_id t0) 0] else [])
            @ [Thread_wait_to_finish]
      \<and> pipefd0 (posix_stop ps (t0\<lparr>rd_line := l, sink := k\<rparr>)) = 0
      \<and> dom (files_after (calls (posix_stop ps (t0\<lparr>rd_line := l, sink := k\<rparr>)))) \<subseteq> {0, 1, 2})
   \<and> (\<not> win_is_running os s \<longrightarrow> win_stop os s = s)
   \<and> (\<not> posix_is_running ps t \<longrightarrow> posix_stop ps t = t)"
proof (intro conjI impI)
  let ?s = "s0\<lparr>rd_line := l, sink := k\<rparr>"
  assume st: "win_on_start os0 p_name p_path p_arguments ProcessImpl_win = (OK, s0)"
    and run: "win_is_running os ?s"
  from run have stop: "win_stop os ?s = win_on_stop ?s" by (simp add: win_stop_cases)
  show "is_closing (win_stop os ?s)" by (simp add: stop win_on_stop_closing)
  show c: "calls (win_stop os ?s) =
          calls s0 @ [TerminateProcess (hProcess (pi_pi s0)) 0, CloseHandle (hProcess (pi_pi s0)),
            CloseHandle (hThread (pi_pi s0)), CloseHandle (rd_pipe s0), Thread_wait_to_finish]"
    by (simp add: stop win_on_stop_calls)
  show "rd_pipe (win_stop os ?s) = 0" by (simp add: stop win_on_stop_rd_pipe)
  from win_on_start_OK [OF st] obtain r w hp ht si where
    "calls s0 = [CreatePipe (Some (r, w)), SetHandleInformation r True,
            CreateProcessW (win_command p_path p_arguments) si (Some (hp, ht)), CloseHandle w, Thread_start]"
    "rd_pipe s0 = r" "pi_pi s0 = \<lparr>hProcess = hp, hThread = ht\<rparr>" by blast
  then show "open_handles (calls (win_stop os ?s)) = {}"
    by (simp add: c open_handles_def) blast
next
  let ?t = "t0\<lparr>rd_line := l, sink := k\<rparr>"
  assume st: "posix_on_start ps0 p_name p_path p_arguments ProcessImpl_posix = (Some OK, t0)"
    and run: "posix_is_running ps ?t"
  from run have stop: "posix_stop ps ?t = posix_on_stop ps ?t" by (simp add: posix_stop_cases)
  show "is_closing (posix_stop ps ?t)" by (simp add: stop posix_on_stop_closing)
  show c: "calls (posix_stop ps ?t) =
          calls t0 @ [kill_call (child_id t0) SIGKILL (kill_result ps), close_call (pipefd0 t0)]
            @ (if kill_result ps = 0 then [waitpid_call (child_id t0) 0] else [])
            @ [Thread_wait_to_finish]"
    by (simp add: stop posix_on_stop_calls)
  show "pipefd0 (posix_stop ps ?t) = 0" by (simp add: stop posix_on_stop_pipefd)
  from posix_on_start_OK [OF st] obtain r w pid where
    "calls t0 = [pipe_call (Some (r, w)), fork_call pid, close_call w, Thread_start]"
    "pipefd0 t0 = r" by blast
  then show "dom (files_after (calls (posix_stop ps ?t))) \<subseteq> {0, 1, 2}"
    by (auto simp: c files_after_def std_files_def split: if_splits)
next
  assume "\<not> win_is_running os s"
  then show "win_stop os s = s" by (simp add: win_stop_cases)
next
  assume "\<not> posix_is_running ps t"
  then show "posix_stop ps t = t" by (simp add: posix_stop_cases)
qed

theorem C1_stop_tears_down_running_witness:
  "win_on_start win_os_running (ascii ''p'') (ascii ''cmd'') [] ProcessImpl_win =
      (OK, win_create win_os_running (ascii ''p'') (ascii ''cmd'') [])
   \<and> win_is_running win_os_running
        ((win_create win_os_running (ascii ''p'') (ascii ''cmd'') [])\<lparr>rd_line := [CHR ''x''], sink := []\<rparr>)
   \<and> is_closing (win_stop win_os_running
        ((win_create win_os_running (ascii ''p'') (ascii ''cmd'') [])\<lparr>rd_line := [CHR ''x''], sink := []\<rparr>))
   \<and> open_handles (calls (win_stop win_os_running
        ((win_create win_os_running (ascii ''p'') (ascii ''cmd'') [])\<lparr>rd_line := [CHR ''x''], sink := []\<rparr>))) = {}
   \<and> posix_on_start posix_os_running (ascii ''p'') (ascii ''cmd'') [] ProcessImpl_posix =
      (Some OK, posix_create posix_os_running (ascii ''p'') (ascii ''cmd'') [])
   \<and> posix_is_running posix_os_running
        ((posix_create posix_os_running (ascii ''p'') (ascii ''cmd'') [])\<lparr>rd_line := [CHR ''x''], sink := []\<rparr>)
   \<and> is_closing (posix_stop posix_os_running
        ((posix_create posix_os_running (ascii ''p'') (ascii ''cmd'') [])\<lparr>rd_line := [CHR ''x''], sink := []\<rparr>))
   \<and> dom (files_after (calls (posix_stop posix_os_running
        ((posix_create posix_os_running (ascii ''p'') (ascii ''cmd'') [])\<lparr>rd_line := [CHR ''x''], sink := []\<rparr>))))
       \<subseteq> {0, 1, 2}
   \<and> \<not> win_is_running win_os_exited (win_create win_os_exited (ascii ''p'') (ascii ''cmd'') [])
   \<and> win_stop win_os_exited (win_create win_os_exited (ascii ''p'') (ascii ''cmd'') []) =
       win_create win_os_exited (ascii ''p'') (ascii ''cmd'') []
   \<and> \<not> posix_is_running posix_os_exited (posix_create posix_os_exited (ascii ''p'') (ascii ''cmd'') [])
   \<and> posix_stop posix_os_exited (posix_create posix_os_exited (ascii ''p'') (ascii ''cmd'') []) =
       posix_create posix_os_exited (ascii ''p'') (ascii ''cmd'') []"
proof -
  let ?w = "win_create win_os_running (ascii ''p'') (ascii ''cmd'') []"
  let ?p = "posix_create posix_os_running (ascii ''p'') (ascii ''cmd'') []"
  have sw: "win_on_start win_os_running (ascii ''p'') (ascii ''cmd'') [] ProcessImpl_win = (OK, ?w)"
    by (simp add: run_os)
  have sp: "posix_on_start posix_os_running (ascii ''p'') (ascii ''cmd'') [] ProcessImpl_posix = (Some OK, ?p)"
    by (simp add: run_os)
  have rw: "win_is_running win_os_running (?w\<lparr>rd_line := [CHR ''x''], sink := []\<rparr>)"
    by (simp add: run_os)
  have rp: "posix_is_running posix_os_running (?p\<lparr>rd_line := [CHR ''x''], sink := []\<rparr>)"
    by (simp add: run_os)
  note w = C1_stop_tears_down_running [THEN conjunct1, THEN mp, OF sw, THEN mp, OF rw]
  note p = C1_stop_tears_down_running [THEN conjunct2, THEN conjunct1, THEN mp, OF sp, THEN mp, OF rp]
  have nw: "\<not> win_is_running win_os_exited (win_create win_os_exited (ascii ''p'') (ascii ''cmd'') [])"
    by (simp add: run_os)
  have np: "\<not> posix_is_running posix_os_exited (posix_create posix_os_exited (ascii ''p'') (ascii ''cmd'') [])"
    by (simp add: run_os)
  note w3 = C1_stop_tears_down_running [THEN conjunct2, THEN conjunct2, THEN conjunct1, THEN mp, OF nw]
  note p3 = C1_stop_tears_down_running [THEN conjunct2, THEN conjunct2, THEN conjunct2, THEN mp, OF np]
  from w have w1: "is_closing (win_stop win_os_running (?w\<lparr>rd_line := [CHR ''x''], sink := []\<rparr>))"
    by (rule conjunct1)
  from w [THEN conjunct2, THEN conjunct2, THEN conjunct2]
  have w2: "open_handles (calls (win_stop win_os_running (?w\<lparr>rd_line := [CHR ''x''], sink := []\<rparr>))) = {}" .
  from p have p1: "is_closing (posix_stop posix_os_running (?p\<lparr>rd_line := [CHR ''x''], sink := []\<rparr>))"
    by (rule conjunct1)
  from p [THEN conjunct2, THEN conjunct2, THEN conjunct2]
  have p2: "dom (files_after (calls (posix_stop posix_os_running (?p\<lparr>rd_line := [CHR ''x''], sink := []\<rparr>))))
       \<subseteq> {0, 1, 2}" .
  from sw rw w1 w2 sp rp p1 p2 nw w3 np p3 show ?thesis by (intro conjI)
qed

text \<open>
  C1, as the claim states it, fails for a child that has exited on its own: \<^verbatim>\<open>start()\<close>
  succeeded, \<^verbatim>\<open>GetExitCodeProcess\<close> reports exit code 0, and \<^verbatim>\<open>stop()\<close> leaves the flag
  unset, makes no call, does not join the thread, and the handles 3 (pipe read end), 5
  and 6 (process and thread) stay open.
\<close>

theorem C1_counterexample:
  "fst (win_on_start win_os_exited (ascii ''p'') (ascii ''cmd'') [] ProcessImpl_win) = OK
   \<and> \<not> is_closing (win_stop win_os_exited (win_create win_os_exited (ascii ''p'') (ascii ''cmd'') []))
   \<and> calls (win_stop win_os_exited (win_create win_os_exited (ascii ''p'') (ascii ''cmd'') [])) =
       calls (win_create win_os_exited (ascii ''p'') (ascii ''cmd'') [])
   \<and> Thread_wait_to_finish \<notin> set (calls (win_stop win_os_exited (win_create win_os_exited (ascii ''p'') (ascii ''cmd'') [])))
   \<and> rd_pipe (win_stop win_os_exited (win_create win_os_exited (ascii ''p'') (ascii ''cmd'') [])) = 3
   \<and> open_handles (calls (win_stop win_os_exited (win_create win_os_exited (ascii ''p'') (ascii ''cmd'') []))) = {3, 5, 6}"
  by (simp add: win_stop_cases run_os) auto


text \<open>
  C2 (amended). Claim: for every ProcessSpec on which spawning fails, the failure is
  surfaced synchronously to the caller of create/start as a SpawnError result.
  \<^verbatim>\<open>on_start\<close> returns an error code exactly when a call of the spawn fails
  (\<^verbatim>\<open>ERR_CANT_FORK\<close> on Windows; \<^verbatim>\<open>ERR_CANT_CREATE\<close> for the pipe and \<^verbatim>\<open>ERR_CANT_FORK\<close>
  for \<^verbatim>\<open>fork\<close> on POSIX), but \<^verbatim>\<open>start\<close> returns nothing and \<^verbatim>\<open>create\<close> returns the object
  as \<^verbatim>\<open>on_start\<close> left it; on that object \<^verbatim>\<open>is_running()\<close> is false whatever the operating
  system answers.
\<close>

theorem C2_spawn_error_not_returned:
  "fst (win_on_start os p_name p_path p_arguments ProcessImpl_win) =
     (if CreatePipe_result os = None \<or> \<not> SetHandleInformation_result os \<or> CreateProcessW_result os = None
      then ERR_CANT_FORK else OK)
   \<and> Process_start (win_on_start os) p_name p_path p_arguments ProcessImpl_win =
       ((), snd (win_on_start os p_name p_path p_arguments ProcessImpl_win))
   \<and> win_create os p_name p_path p_arguments = snd (win_on_start os p_name p_path p_arguments ProcessImpl_win)
   \<and> (fst (win_on_start os p_name p_path p_arguments ProcessImpl_win) \<noteq> OK \<longrightarrow>
        \<not> win_is_running os' (win_create os p_name p_path p_arguments))
   \<and> fst (posix_on_start ps p_name p_path p_arguments ProcessImpl_posix) =
     (case pipe_result ps of
        None \<Rightarrow> Some ERR_CANT_CREATE
      | Some fds \<Rightarrow> if fork_result ps < 0 then Some ERR_CANT_FORK
                    else if fork_result ps = 0 then None else Some OK)
   \<and> Process_start (posix_on_start ps) p_name p_path p_arguments ProcessImpl_posix =
       ((), snd (posix_on_start ps p_name p_path p_arguments ProcessImpl_posix))
   \<and> posix_create ps p_name p_path p_arguments = snd (posix_on_start ps p_name p_path p_arguments ProcessImpl_posix)
   \<and> (fst (posix_on_start ps p_name p_path p_arguments ProcessImpl_posix) \<in> {Some ERR_CANT_CREATE, Some ERR_CANT_FORK} \<longrightarrow>
        \<not> posix_is_running ps' (posix_create ps p_name p_path p_arguments))"
  using win_failed_not_running [of os p_name p_path p_arguments os']
    posix_failed_not_running [of ps p_name p_path p_arguments ps']
  by (simp add: win_on_start_result posix_on_start_result win_create_def posix_create_def
      Process_create_def Process_start_def)

theorem C2_spawn_error_not_returned_witness:
  "fst (win_on_start win_os_no_pipe (ascii ''p'') (ascii ''cmd'') [] ProcessImpl_win) \<noteq> OK
   \<and> \<not> win_is_running win_os_running (win_create win_os_no_pipe (ascii ''p'') (ascii ''cmd'') [])
   \<and> fst (posix_on_start (posix_os_running\<lparr>fork_result := - 1\<rparr>) (ascii ''p'') (ascii ''cmd'') [] ProcessImpl_posix)
       \<in> {Some ERR_CANT_CREATE, Some ERR_CANT_FORK}
   \<and> \<not> posix_is_running posix_os_running
        (posix_create (posix_os_running\<lparr>fork_result := - 1\<rparr>) (ascii ''p'') (ascii ''cmd'') [])"
proof -
  have a: "fst (win_on_start win_os_no_pipe (ascii ''p'') (ascii ''cmd'') [] ProcessImpl_win) \<noteq> OK"
    by (simp add: win_os_no_pipe_def run_os)
  have b: "fst (posix_on_start (posix_os_running\<lparr>fork_result := - 1\<rparr>) (ascii ''p'') (ascii ''cmd'') [] ProcessImpl_posix)
       \<in> {Some ERR_CANT_CREATE, Some ERR_CANT_FORK}"
    by (simp add: run_os)
  show ?thesis
    using a b C2_spawn_error_not_returned [where os = win_os_no_pipe and p_name = "ascii ''p''"
        and p_path = "ascii ''cmd''" and p_arguments = "[]" and os' = win_os_running
        and ps = "posix_os_running\<lparr>fork_result := - 1\<rparr>" and ps' = posix_os_running]
    by blast
qed


text \<open>
  C2, as the claim states it, fails when \<^verbatim>\<open>CreatePipe\<close> fails: \<^verbatim>\<open>on_start\<close> returns
  \<^verbatim>\<open>ERR_CANT_FORK\<close>, the value of \<^verbatim>\<open>start\<close> is the unit, the same as for a spawn that
  succeeds, and \<^verbatim>\<open>create\<close> returns an object.
\<close>

theorem C2_counterexample:
  "fst (win_on_start win_os_no_pipe (ascii ''p'') (ascii ''cmd'') [] ProcessImpl_win) = ERR_CANT_FORK
   \<and> fst (Process_start (win_on_start win_os_no_pipe) (ascii ''p'') (ascii ''cmd'') [] ProcessImpl_win) = ()
   \<and> fst (Process_start (win_on_start win_os_no_pipe) (ascii ''p'') (ascii ''cmd'') [] ProcessImpl_win) =
       fst (Process_start (win_on_start win_os_running) (ascii ''p'') (ascii ''cmd'') [] ProcessImpl_win)
   \<and> win_create win_os_no_pipe (ascii ''p'') (ascii ''cmd'') [] =
       ProcessImpl_win\<lparr>calls := [CreatePipe None]\<rparr>"
  by (simp add: win_os_no_pipe_def run_os)



text \<open>
  C3 (the code departs from the claim on POSIX). Claim: for the input \<^verbatim>\<open>a\<close> LF \<^verbatim>\<open>b\<close> CR LF \<^verbatim>\<open>c\<close>
  fed to the line assembler, exactly the lines \<^verbatim>\<open>a\<close> and \<^verbatim>\<open>b\<close> are emitted to the logging
  sink, \<^verbatim>\<open>c\<close> stays buffered, and the CR LF pair yields no extra empty line.
  Evaluated on that input with the ASCII decoders: the Windows loop logs \<^verbatim>\<open>a\<close> and
  \<^verbatim>\<open>b\<close> and keeps \<^verbatim>\<open>c\<close>; the POSIX loop logs \<^verbatim>\<open>a\<close>, \<^verbatim>\<open>b\<close> and then an empty line
  for the LF of the pair. Both loops append a NUL before \<^verbatim>\<open>_flush\<close>, so the test
  \<^verbatim>\<open>rd_line.is_empty()\<close> never holds there; the Windows \<^verbatim>\<open>_flush\<close> tests the decoded
  text for emptiness before it logs, the POSIX \<^verbatim>\<open>_flush\<close> does not.
\<close>

theorem C3_posix_logs_empty_line:
  "sink (posix_flush D s) =
     (if rd_line s = [] then sink s
      else case append_utf8 D (rd_line s) of
             Some line \<Rightarrow> sink s @ [JSB_PROCESS_LOG Log ''[%s] %s'' [proc_name s, line]]
           | None \<Rightarrow> sink s)
   \<and> rd_line (append_char_to_line (CHR 0x00) s) \<noteq> []
   \<and> sink (posix_consume ascii_decoders [CHR ''a'', CHR 0x0A, CHR ''b'', CHR 0x0D, CHR 0x0A, CHR ''c'']
           (ProcessImpl_posix\<lparr>proc_name := name\<rparr>)) =
     [JSB_PROCESS_LOG Log ''[%s] %s'' [name, ascii ''a''],
      JSB_PROCESS_LOG Log ''[%s] %s'' [name, ascii ''b''],
      JSB_PROCESS_LOG Log ''[%s] %s'' [name, ascii '''']]
   \<and> rd_line (posix_consume ascii_decoders [CHR ''a'', CHR 0x0A, CHR ''b'', CHR 0x0D, CHR 0x0A, CHR ''c'']
           (ProcessImpl_posix\<lparr>proc_name := name\<rparr>)) = ''c''
   \<and> sink (win_consume ascii_decoders [CHR ''a'', CHR 0x0A, CHR ''b'', CHR 0x0D, CHR 0x0A, CHR ''c'']
           (ProcessImpl_win\<lparr>proc_name := name\<rparr>)) =
     [JSB_PROCESS_LOG Log ''[%s] %s'' [name, ascii ''a''],
      JSB_PROCESS_LOG Log ''[%s] %s'' [name, ascii ''b'']]
   \<and> rd_line (win_consume ascii_decoders [CHR ''a'', CHR 0x0A, CHR ''b'', CHR 0x0D, CHR 0x0A, CHR ''c'']
           (ProcessImpl_win\<lparr>proc_name := name\<rparr>)) = ''c''"
  by (simp add: run_chunk run_flush ProcessImpl_posix_def ProcessImpl_win_def split: option.split)

text \<open>
  C4 (amended). Claim: for every byte chunk containing a well-formed CSI sequence
  (ESC, \<^verbatim>\<open>[\<close>, parameter bytes, a final byte in 0x40-0x7E) or OSC sequence (ESC, \<^verbatim>\<open>]\<close>,
  payload, terminated by BEL or by ESC and a backslash), the escape filter drops every
  byte of the sequence and leaves the bytes before and after untouched.
  That holds when the loop reaches the first byte of the sequence, that is, when no
  escape earlier in the chunk has consumed it: the result is then the result of
  consuming the bytes before the sequence and then the bytes after it.
\<close>

theorem C4_sequence_removed:
  assumes "loop_reaches (pre @ seq @ post) 0 (length pre)"
    and "(seq = csi_seq params final \<and> (\<forall>p \<in> set params. \<not> csi_final p) \<and> csi_final final)
         \<or> (seq = osc_seq_bel payload \<and> osc_payload payload)
         \<or> (seq = osc_seq_st payload \<and> osc_payload payload)"
  shows "win_consume D (pre @ seq @ post) s = win_consume D post (win_consume D pre s)
       \<and> posix_consume D (pre @ seq @ post) s = posix_consume D post (posix_consume D pre s)"
  using chunk_loop_split_at [OF assms(1), of "win_flush D" s]
    chunk_loop_split_at [OF assms(1), of "posix_flush D" s]
    consume_sequence [OF assms(2), of "win_flush D" post "chunk_loop (win_flush D) pre 0 s"]
    consume_sequence [OF assms(2), of "posix_flush D" post "chunk_loop (posix_flush D) pre 0 s"]
  by (simp add: win_consume_def posix_consume_def)


theorem C4_sequence_removed_witness:
  "loop_reaches ([CHR ''x''] @ csi_seq [CHR ''3'', CHR ''1''] CHR ''m'' @ [CHR ''y'', CHR 0x0A]) 0 (length [CHR ''x''])
   \<and> \<not> csi_final CHR ''3'' \<and> \<not> csi_final CHR ''1'' \<and> csi_final CHR ''m''
   \<and> sink (win_consume ascii_decoders ([CHR ''x''] @ csi_seq [CHR ''3'', CHR ''1''] CHR ''m'' @ [CHR ''y'', CHR 0x0A])
             (ProcessImpl_win\<lparr>proc_name := ascii ''p''\<rparr>)) =
       [JSB_PROCESS_LOG Log ''[%s] %s'' [ascii ''p'', ascii ''xy'']]"
proof -
  have r: "loop_reaches ([CHR ''x''] @ csi_seq [CHR ''3'', CHR ''1''] CHR ''m'' @ [CHR ''y'', CHR 0x0A]) 0 (length [CHR ''x''])"
    by (rule loop_reaches_text) simp
  have f: "(\<forall>p \<in> set [CHR ''3'', CHR ''1'']. \<not> csi_final p) \<and> csi_final CHR ''m''"
    by (simp add: csi_final_def)
  from f have w: "(csi_seq [CHR ''3'', CHR ''1''] CHR ''m'' = csi_seq [CHR ''3'', CHR ''1''] CHR ''m''
          \<and> (\<forall>p \<in> set [CHR ''3'', CHR ''1'']. \<not> csi_final p) \<and> csi_final CHR ''m'')
         \<or> (csi_seq [CHR ''3'', CHR ''1''] CHR ''m'' = osc_seq_bel [] \<and> osc_payload [])
         \<or> (csi_seq [CHR ''3'', CHR ''1''] CHR ''m'' = osc_seq_st [] \<and> osc_payload [])"
    by simp
  have "sink (win_consume ascii_decoders ([CHR ''x''] @ csi_seq [CHR ''3'', CHR ''1''] CHR ''m'' @ [CHR ''y'', CHR 0x0A])
             (ProcessImpl_win\<lparr>proc_name := ascii ''p''\<rparr>)) =
       [JSB_PROCESS_LOG Log ''[%s] %s'' [ascii ''p'', ascii ''xy'']]"
    using C4_sequence_removed [OF r w, of ascii_decoders "ProcessImpl_win\<lparr>proc_name := ascii ''p''\<rparr>"]
    by (simp add: run_chunk run_flush ProcessImpl_win_def)
  with r f show ?thesis by simp
qed

text \<open>
  C4, as the claim states it, fails on the chunk ESC ESC \<^verbatim>\<open>[\<close> \<^verbatim>\<open>m\<close> newline: it contains the
  well-formed CSI sequence ESC \<^verbatim>\<open>[\<close> \<^verbatim>\<open>m\<close>, but the first ESC takes the second one as the
  second byte of a two-byte escape, and \<^verbatim>\<open>[m\<close> is logged as a line.
\<close>

theorem C4_counterexample:
  "csi_final CHR ''m''
   \<and> sink (win_consume ascii_decoders ([CHR 0x1B] @ csi_seq [] CHR ''m'' @ [CHR 0x0A])
            (ProcessImpl_win\<lparr>proc_name := ascii ''p''\<rparr>)) =
       [JSB_PROCESS_LOG Log ''[%s] %s'' [ascii ''p'', ascii ''[m'']]
   \<and> sink (posix_consume ascii_decoders ([CHR 0x1B] @ csi_seq [] CHR ''m'' @ [CHR 0x0A])
            (ProcessImpl_posix\<lparr>proc_name := ascii ''p''\<rparr>)) =
       [JSB_PROCESS_LOG Log ''[%s] %s'' [ascii ''p'', ascii ''[m'']]"
  by (simp add: csi_final_def csi_seq_def run_chunk run_flush ProcessImpl_posix_def ProcessImpl_win_def)


text \<open>
  C5 (the code departs from the claim on POSIX). Claim: on every supported platform the
  launcher directs both the standard output and the standard error of the child into
  the one pipe whose read end the supervisor keeps.
  Evaluated in the POSIX child (\<^verbatim>\<open>fork\<close> returns 0) with the pipe on the descriptors 3 and
  4: the calls up to \<^verbatim>\<open>execvp\<close> are \<^verbatim>\<open>setsid\<close>, \<^verbatim>\<open>close(3)\<close>, \<^verbatim>\<open>dup2(4, 1)\<close>,
  \<^verbatim>\<open>close(4)\<close>; descriptor 1 is the write end of the pipe and descriptor 2 is still what
  the parent had there. The Windows \<^verbatim>\<open>on_start\<close> passes the write end as both
  \<^verbatim>\<open>hStdOutput\<close> and \<^verbatim>\<open>hStdError\<close>.
\<close>

theorem C5_posix_stderr_not_redirected:
  "files_after (calls (snd (posix_on_start \<lparr>pipe_result = Some (3, 4), fork_result = 0, execvp_replaces = True,
      kill_result = kr, waitpid_WNOHANG_result = wr\<rparr> p_name p_path p_arguments ProcessImpl_posix)))
     = [0 \<mapsto> Inherited 0, STDOUT_FILENO \<mapsto> PipeWrite, STDERR_FILENO \<mapsto> Inherited 2]
   \<and> calls (snd (posix_on_start \<lparr>pipe_result = Some (3, 4), fork_result = 0, execvp_replaces = True,
      kill_result = kr, waitpid_WNOHANG_result = wr\<rparr> p_name p_path p_arguments ProcessImpl_posix))
     = [pipe_call (Some (3, 4)), fork_call 0, setsid_call, close_call 3, dup2_call 4 STDOUT_FILENO,
        close_call 4, execvp_call p_path (p_path # p_arguments)]
   \<and> calls (snd (win_on_start \<lparr>CreatePipe_result = Some (r, w), SetHandleInformation_result = True,
          CreateProcessW_result = Some (hp, ht), GetExitCodeProcess_result = ec\<rparr> p_name p_path p_arguments ProcessImpl_win))
     = [CreatePipe (Some (r, w)), SetHandleInformation r True,
        CreateProcessW (win_command p_path p_arguments)
          \<lparr>dwFlags = STARTF_USESTDHANDLES, hStdOutput = w, hStdError = w\<rparr> (Some (hp, ht)),
        CloseHandle w, Thread_start]"
  by (simp add: run_os) (auto simp: fun_eq_iff)


text \<open>
  C6 (amended). Claim: the line assembler and escape filter is restartable across
  consume calls, its state persisting in the line buffer and the filter automaton, so
  that an escape sequence split across two consecutive chunks is still removed.
  What persists between two calls is the line buffer only. Consuming two chunks one
  after the other is the same as consuming their concatenation when the loop reaches the
  cut, that is, when no escape straddles it; and after a chunk that ends with an ESC
  the next chunk is consumed as after that chunk without the ESC, from the start of the
  loop, so the rest of the sequence is taken as text.
\<close>

theorem C6_line_buffer_only:
  "(loop_reaches (chunk1 @ chunk2) 0 (length chunk1) \<longrightarrow>
      win_consume D chunk2 (win_consume D chunk1 s) = win_consume D (chunk1 @ chunk2) s
      \<and> posix_consume D chunk2 (posix_consume D chunk1 s) = posix_consume D (chunk1 @ chunk2) s)
   \<and> (loop_reaches (chunk1 @ [CHR 0x1B]) 0 (length chunk1) \<longrightarrow>
      win_consume D chunk2 (win_consume D (chunk1 @ [CHR 0x1B]) s) = win_consume D chunk2 (win_consume D chunk1 s)
      \<and> posix_consume D chunk2 (posix_consume D (chunk1 @ [CHR 0x1B]) s) =
          posix_consume D chunk2 (posix_consume D chunk1 s))"
proof (intro conjI impI)
  assume r: "loop_reaches (chunk1 @ chunk2) 0 (length chunk1)"
  show "win_consume D chunk2 (win_consume D chunk1 s) = win_consume D (chunk1 @ chunk2) s"
    using chunk_loop_split_at [OF r, of "win_flush D" s] by (simp add: win_consume_def)
  show "posix_consume D chunk2 (posix_consume D chunk1 s) = posix_consume D (chunk1 @ chunk2) s"
    using chunk_loop_split_at [OF r, of "posix_flush D" s] by (simp add: posix_consume_def)
next
  assume r: "loop_reaches (chunk1 @ [CHR 0x1B]) 0 (length chunk1)"
  show "win_consume D chunk2 (win_consume D (chunk1 @ [CHR 0x1B]) s) = win_consume D chunk2 (win_consume D chunk1 s)"
    using chunk_loop_split_at [OF r, of "win_flush D" s] by (simp add: win_consume_def chunk_loop_esc_last)
  show "posix_consume D chunk2 (posix_consume D (chunk1 @ [CHR 0x1B]) s) =
          posix_consume D chunk2 (posix_consume D chunk1 s)"
    using chunk_loop_split_at [OF r, of "posix_flush D" s] by (simp add: posix_consume_def chunk_loop_esc_last)
qed

theorem C6_line_buffer_only_witness:
  "loop_reaches ([CHR ''a'', CHR ''b''] @ [CHR ''c'', CHR 0x0A]) 0 (length [CHR ''a'', CHR ''b''])
   \<and> sink (win_consume ascii_decoders [CHR ''c'', CHR 0x0A]
        (win_consume ascii_decoders [CHR ''a'', CHR ''b''] (ProcessImpl_win\<lparr>proc_name := ascii ''p''\<rparr>))) =
       [JSB_PROCESS_LOG Log ''[%s] %s'' [ascii ''p'', ascii ''abc'']]
   \<and> loop_reaches ([CHR ''x''] @ [CHR 0x1B]) 0 (length [CHR ''x''])
   \<and> win_consume ascii_decoders [CHR ''['', CHR ''m'']
        (win_consume ascii_decoders ([CHR ''x''] @ [CHR 0x1B]) (ProcessImpl_win\<lparr>proc_name := ascii ''p''\<rparr>)) =
       ProcessImpl_win\<lparr>proc_name := ascii ''p'', rd_line := [CHR ''x'', CHR ''['', CHR ''m'']\<rparr>"
proof -
  have r1: "loop_reaches ([CHR ''a'', CHR ''b''] @ [CHR ''c'', CHR 0x0A]) 0 (length [CHR ''a'', CHR ''b''])"
    by (rule loop_reaches_text) simp
  have r2: "loop_reaches ([CHR ''x''] @ [CHR 0x1B]) 0 (length [CHR ''x''])"
    by (rule loop_reaches_text) simp
  have a: "sink (win_consume ascii_decoders [CHR ''c'', CHR 0x0A]
        (win_consume ascii_decoders [CHR ''a'', CHR ''b''] (ProcessImpl_win\<lparr>proc_name := ascii ''p''\<rparr>))) =
       [JSB_PROCESS_LOG Log ''[%s] %s'' [ascii ''p'', ascii ''abc'']]"
    using r1 C6_line_buffer_only [of "[CHR ''a'', CHR ''b'']" "[CHR ''c'', CHR 0x0A]" ascii_decoders
        "ProcessImpl_win\<lparr>proc_name := ascii ''p''\<rparr>"]
    by (simp add: run_chunk run_flush ProcessImpl_win_def)
  have b: "win_consume ascii_decoders [CHR ''['', CHR ''m'']
        (win_consume ascii_decoders ([CHR ''x''] @ [CHR 0x1B]) (ProcessImpl_win\<lparr>proc_name := ascii ''p''\<rparr>)) =
       ProcessImpl_win\<lparr>proc_name := ascii ''p'', rd_line := [CHR ''x'', CHR ''['', CHR ''m'']\<rparr>"
    using r2 C6_line_buffer_only [of "[CHR ''x'']" "[CHR ''['', CHR ''m'']" ascii_decoders
        "ProcessImpl_win\<lparr>proc_name := ascii ''p''\<rparr>"]
    by (simp add: run_chunk run_flush ProcessImpl_win_def)
  from r1 r2 a b show ?thesis by blast
qed

text \<open>
  C6, as the claim states it, fails on the chunks \<^verbatim>\<open>x\<close> ESC and \<^verbatim>\<open>[31my\<close> newline, which
  split the well-formed CSI sequence ESC \<^verbatim>\<open>[31m\<close> after its first byte: the line
  \<^verbatim>\<open>x[31my\<close> is logged.
\<close>

theorem C6_counterexample:
  "[CHR 0x1B] @ [CHR ''['', CHR ''3'', CHR ''1'', CHR ''m''] = csi_seq [CHR ''3'', CHR ''1''] CHR ''m''
   \<and> \<not> csi_final CHR ''3'' \<and> \<not> csi_final CHR ''1'' \<and> csi_final CHR ''m''
   \<and> sink (win_consume ascii_decoders ([CHR ''['', CHR ''3'', CHR ''1'', CHR ''m''] @ [CHR ''y'', CHR 0x0A])
        (win_consume ascii_decoders ([CHR ''x''] @ [CHR 0x1B]) (ProcessImpl_win\<lparr>proc_name := ascii ''p''\<rparr>))) =
       [JSB_PROCESS_LOG Log ''[%s] %s'' [ascii ''p'', ascii ''x[31my'']]
   \<and> sink (posix_consume ascii_decoders ([CHR ''['', CHR ''3'', CHR ''1'', CHR ''m''] @ [CHR ''y'', CHR 0x0A])
        (posix_consume ascii_decoders ([CHR ''x''] @ [CHR 0x1B]) (ProcessImpl_posix\<lparr>proc_name := ascii ''p''\<rparr>))) =
       [JSB_PROCESS_LOG Log ''[%s] %s'' [ascii ''p'', ascii ''x[31my'']]"
  by (simp add: csi_seq_def csi_final_def run_chunk run_flush ProcessImpl_win_def ProcessImpl_posix_def)

text \<open>
  C7. Claim: \<^verbatim>\<open>stop()\<close> is idempotent: a second call, or a call when the process is not
  running, is a no-op with no second kill and no second join, and after any completed
  \<^verbatim>\<open>stop()\<close> \<^verbatim>\<open>is_running()\<close> is false, whatever the state of the teardown.
  The answers of the operating system at the second call are \<open>os2\<close>; a process that
  was not running at the first call is not running at the second. The object, with the
  list of its calls, is the same after the second call as after the first.
\<close>

theorem C7_stop_idempotent:
  "((win_is_running os2 s \<longrightarrow> win_is_running os1 s) \<longrightarrow>
      win_stop os2 (win_stop os1 s) = win_stop os1 s)
   \<and> (\<not> win_is_running os1 s \<longrightarrow> win_stop os1 s = s)
   \<and> \<not> win_is_running os1 (win_stop os1 s)
   \<and> (win_is_running os1 s \<longrightarrow> \<not> win_is_running os2 (win_stop os1 s))
   \<and> ((posix_is_running ps2 t \<longrightarrow> posix_is_running ps1 t) \<longrightarrow>
      posix_stop ps2 (posix_stop ps1 t) = posix_stop ps1 t)
   \<and> (\<not> posix_is_running ps1 t \<longrightarrow> posix_stop ps1 t = t)
   \<and> \<not> posix_is_running ps1 (posix_stop ps1 t)
   \<and> (posix_is_running ps1 t \<longrightarrow> \<not> posix_is_running ps2 (posix_stop ps1 t))"
  using win_not_running_closing [OF win_on_stop_closing, of os2 s]
    win_not_running_closing [OF win_on_stop_closing, of os1 s]
    posix_not_running_closing [OF posix_on_stop_closing, of ps2 ps1 t]
    posix_not_running_closing [OF posix_on_stop_closing, of ps1 ps1 t]
  by (simp add: win_stop_cases posix_stop_cases)


theorem C7_stop_idempotent_witness:
  "win_is_running win_os_running (win_create win_os_running (ascii ''p'') (ascii ''cmd'') [])
   \<and> win_stop win_os_exited (win_stop win_os_running (win_create win_os_running (ascii ''p'') (ascii ''cmd'') [])) =
       win_stop win_os_running (win_create win_os_running (ascii ''p'') (ascii ''cmd'') [])
   \<and> \<not> win_is_running win_os_running (win_stop win_os_running (win_create win_os_running (ascii ''p'') (ascii ''cmd'') []))
   \<and> \<not> win_is_running win_os_exited (win_create win_os_exited (ascii ''p'') (ascii ''cmd'') [])
   \<and> win_stop win_os_exited (win_create win_os_exited (ascii ''p'') (ascii ''cmd'') []) =
       win_create win_os_exited (ascii ''p'') (ascii ''cmd'') []
   \<and> posix_is_running posix_os_running (posix_create posix_os_running (ascii ''p'') (ascii ''cmd'') [])
   \<and> posix_stop posix_os_exited (posix_stop posix_os_running (posix_create posix_os_running (ascii ''p'') (ascii ''cmd'') [])) =
       posix_stop posix_os_running (posix_create posix_os_running (ascii ''p'') (ascii ''cmd'') [])
   \<and> \<not> posix_is_running posix_os_exited (posix_create posix_os_exited (ascii ''p'') (ascii ''cmd'') [])
   \<and> posix_stop posix_os_exited (posix_create posix_os_exited (ascii ''p'') (ascii ''cmd'') []) =
       posix_create posix_os_exited (ascii ''p'') (ascii ''cmd'') []"
proof -
  have w: "win_is_running win_os_running (win_create win_os_running (ascii ''p'') (ascii ''cmd'') [])"
    by (simp add: run_os)
  have w': "\<not> win_is_running win_os_exited (win_create win_os_exited (ascii ''p'') (ascii ''cmd'') [])"
    by (simp add: run_os)
  have p: "posix_is_running posix_os_running (posix_create posix_os_running (ascii ''p'') (ascii ''cmd'') [])"
    by (simp add: run_os)
  have p': "\<not> posix_is_running posix_os_exited (posix_create posix_os_exited (ascii ''p'') (ascii ''cmd'') [])"
    by (simp add: run_os)
  show ?thesis
    using w w' p p'
      C7_stop_idempotent [of win_os_exited "win_create win_os_running (ascii ''p'') (ascii ''cmd'') []"
        win_os_running posix_os_exited "posix_create posix_os_running (ascii ''p'') (ascii ''cmd'') []"
        posix_os_running]
      C7_stop_idempotent [of win_os_exited "win_create win_os_exited (ascii ''p'') (ascii ''cmd'') []"
        win_os_exited posix_os_exited "posix_create posix_os_exited (ascii ''p'') (ascii ''cmd'') []"
        posix_os_exited]
    by simp
qed

text \<open>
  C8. Claim: the Windows command line quotes an argument if and only if it contains one
  of the characters space, \<^verbatim>\<open>& ( ) [ ] { } ^ = ; ! ' + , ` ~\<close>, by wrapping the whole
  argument in double quotes; \<^verbatim>\<open>a b\<close> is rendered quoted, \<^verbatim>\<open>ab\<close> unquoted and unchanged.
\<close>

theorem C8_quote:
  "quote_command_line_argument t =
     (if \<exists>c \<in> set t. c \<in> set quoting_chars then u (CHR 0x22) # t @ [u (CHR 0x22)] else t)
   \<and> quote_command_line_argument (ascii ''a b'') = u (CHR 0x22) # ascii ''a b'' @ [u (CHR 0x22)]
   \<and> quote_command_line_argument (ascii ''ab'') = ascii ''ab''
   \<and> win_command (ascii ''x'') [ascii ''a b'', ascii ''ab''] =
       ascii ''x '' @ [u (CHR 0x22)] @ ascii ''a b'' @ [u (CHR 0x22)] @ ascii '' ab''"
proof -
  have a: "quote_command_line_argument t =
     (if \<exists>c \<in> set t. c \<in> set quoting_chars then u (CHR 0x22) # t @ [u (CHR 0x22)] else t)" for t
    by (simp add: quote_command_line_argument_def quote_scan_eq)
  have b: "quote_command_line_argument (ascii ''a b'') = u (CHR 0x22) # ascii ''a b'' @ [u (CHR 0x22)]"
    by (simp add: quote_command_line_argument_def ascii_def u_def)
  have c: "quote_command_line_argument (ascii ''ab'') = ascii ''ab''"
    by (simp add: quote_command_line_argument_def ascii_def u_def)
  have d: "quote_command_line_argument (ascii ''x'') = ascii ''x''"
    by (simp add: quote_command_line_argument_def ascii_def u_def)
  have e: "map (\<lambda>c. if c = u CHR ''/'' then u (CHR 0x5C) else c) (ascii ''x'') = ascii ''x''"
    by (simp add: ascii_def u_def)
  have "win_command (ascii ''x'') [ascii ''a b'', ascii ''ab''] =
       ascii ''x '' @ [u (CHR 0x22)] @ ascii ''a b'' @ [u (CHR 0x22)] @ ascii '' ab''"
    unfolding win_command_def Let_def e by (simp add: b c d) (simp add: ascii_def)
  with a b c show ?thesis by blast
qed

theorem C8_quote_witness:
  "(\<exists>c \<in> set (ascii ''a b''). c \<in> set quoting_chars)
   \<and> quote_command_line_argument (ascii ''a b'') = u (CHR 0x22) # ascii ''a b'' @ [u (CHR 0x22)]
   \<and> \<not> (\<exists>c \<in> set (ascii ''ab''). c \<in> set quoting_chars)
   \<and> quote_command_line_argument (ascii ''ab'') = ascii ''ab''"
  using C8_quote [of "ascii ''a b''"] C8_quote [of "ascii ''ab''"]
  by (simp add: ascii_def u_def quoting_chars_def)


text \<open>
  C9 (the code departs from the claim). Claim: on every spawn-failure path of
  \<^verbatim>\<open>start()\<close> the pipe ends created so far are released before the error is reported,
  and the handle retains no partial state.
  Evaluated on the failure paths: when \<^verbatim>\<open>SetHandleInformation\<close> fails, \<^verbatim>\<open>on_start\<close>
  returns \<^verbatim>\<open>ERR_CANT_FORK\<close> with both pipe handles open; when \<^verbatim>\<open>CreateProcessW\<close> fails
  it closes both; when \<^verbatim>\<open>fork\<close> fails, the POSIX \<^verbatim>\<open>on_start\<close> returns
  \<^verbatim>\<open>ERR_CANT_FORK\<close> with both descriptors open and kept in \<^verbatim>\<open>pipefd\<close>.
\<close>

theorem C9_failure_paths_keep_pipe:
  "fst (win_on_start \<lparr>CreatePipe_result = Some (r, w), SetHandleInformation_result = False,
          CreateProcessW_result = cp, GetExitCodeProcess_result = ec\<rparr> p_name p_path p_arguments ProcessImpl_win)
     = ERR_CANT_FORK
   \<and> open_handles (calls (snd (win_on_start \<lparr>CreatePipe_result = Some (r, w), SetHandleInformation_result = False,
          CreateProcessW_result = cp, GetExitCodeProcess_result = ec\<rparr> p_name p_path p_arguments ProcessImpl_win)))
     = {r, w}
   \<and> fst (win_on_start \<lparr>CreatePipe_result = Some (r, w), SetHandleInformation_result = True,
          CreateProcessW_result = None, GetExitCodeProcess_result = ec\<rparr> p_name p_path p_arguments ProcessImpl_win)
     = ERR_CANT_FORK
   \<and> open_handles (calls (snd (win_on_start \<lparr>CreatePipe_result = Some (r, w), SetHandleInformation_result = True,
          CreateProcessW_result = None, GetExitCodeProcess_result = ec\<rparr> p_name p_path p_arguments ProcessImpl_win)))
     = {}
   \<and> fst (posix_on_start \<lparr>pipe_result = Some (3, 4), fork_result = - 1, execvp_replaces = ex,
          kill_result = kr, waitpid_WNOHANG_result = wr\<rparr> p_name p_path p_arguments ProcessImpl_posix)
     = Some ERR_CANT_FORK
   \<and> files_after (calls (snd (posix_on_start \<lparr>pipe_result = Some (3, 4), fork_result = - 1, execvp_replaces = ex,
          kill_result = kr, waitpid_WNOHANG_result = wr\<rparr> p_name p_path p_arguments ProcessImpl_posix)))
     = std_files(3 \<mapsto> PipeRead, 4 \<mapsto> PipeWrite)
   \<and> pipefd0 (snd (posix_on_start \<lparr>pipe_result = Some (3, 4), fork_result = - 1, execvp_replaces = ex,
          kill_result = kr, waitpid_WNOHANG_result = wr\<rparr> p_name p_path p_arguments ProcessImpl_posix)) = 3
   \<and> pipefd1 (snd (posix_on_start \<lparr>pipe_result = Some (3, 4), fork_result = - 1, execvp_replaces = ex,
          kill_result = kr, waitpid_WNOHANG_result = wr\<rparr> p_name p_path p_arguments ProcessImpl_posix)) = 4"
  by (simp add: run_os)

text \<open>
  C10. Claim: on Windows a completed line is forwarded to the logging sink only when the
  decoded text is non-empty; a line buffer that decodes to the empty string, such as a
  blank line, which is a lone NUL when it is flushed, produces no log entry.
\<close>

theorem C10_windows_skips_empty_text:
  "sink (win_flush D s) =
     (if rd_line s \<noteq> [] \<and> win_output D (rd_line s) \<noteq> []
      then sink s @ [JSB_PROCESS_LOG Log ''[%s] %s'' [proc_name s, win_output D (rd_line s)]]
      else sink s)
   \<and> (win_output D [CHR 0x00] = [] \<longrightarrow>
        win_consume D [CHR 0x0A] (s\<lparr>rd_line := []\<rparr>) = s\<lparr>rd_line := []\<rparr>)
   \<and> win_output ascii_decoders [CHR 0x00] = []"
proof -
  have "win_consume D [CHR 0x0A] (s\<lparr>rd_line := []\<rparr>) = s\<lparr>rd_line := []\<rparr>"
    if "win_output D [CHR 0x00] = []"
    using that by (simp add: run_chunk win_flush_def append_char_to_line_def)
  moreover have "win_output ascii_decoders [CHR 0x00] = []"
    by (simp add: run_flush)
  ultimately show ?thesis by (simp add: win_flush_sink)
qed

theorem C10_windows_skips_empty_text_witness:
  "win_output ascii_decoders [CHR 0x00] = []
   \<and> win_consume ascii_decoders [CHR 0x0A] (ProcessImpl_win\<lparr>rd_line := []\<rparr>) = ProcessImpl_win\<lparr>rd_line := []\<rparr>
   \<and> rd_line (ProcessImpl_win\<lparr>rd_line := [CHR ''a'', CHR 0x00]\<rparr>) \<noteq> []
   \<and> win_output ascii_decoders (rd_line (ProcessImpl_win\<lparr>rd_line := [CHR ''a'', CHR 0x00]\<rparr>)) \<noteq> []
   \<and> sink (win_flush ascii_decoders (ProcessImpl_win\<lparr>rd_line := [CHR ''a'', CHR 0x00]\<rparr>)) =
       [JSB_PROCESS_LOG Log ''[%s] %s'' [[], ascii ''a'']]"
  using C10_windows_skips_empty_text [of ascii_decoders ProcessImpl_win]
    C10_windows_skips_empty_text [of ascii_decoders "ProcessImpl_win\<lparr>rd_line := [CHR ''a'', CHR 0x00]\<rparr>"]
  by (simp add: run_flush ProcessImpl_win_def)


end
